theory Spec2Isabelle
  imports Complex_Main "HOL-Library.AList" "HOL-Library.Char_ord" "HOL-Library.List_Lexorder"
begin

section \<open>ewgpal: a palette image of the biomes of a world\<close>

text \<open>
  The program \<^verbatim>\<open>ewgpal.py\<close> is one linear pipeline: it loads the biome files of a
  world directory and groups them by biome type, expands every biome's colours into
  patches, plans a grid, draws it and saves the image. The theory follows the source
  top down. Python's exceptions are values of the type \<open>error\<close>; a computation that may
  raise returns \<open>error + 'a\<close>, with \<open>Inl\<close> for the exception.
\<close>

subsection \<open>Exceptions, strings and dictionaries\<close>

datatype error =
    KeyError string
  | ValueError string
  | AttributeError string
  | ZeroDivisionError

text \<open>
  A Python \<^verbatim>\<open>dict\<close> with string keys is an association list with distinct keys, kept in
  insertion order. The program never depends on the iteration order of a dictionary: it
  sorts the keys, or folds with \<^verbatim>\<open>max\<close> and \<^verbatim>\<open>+\<close>. Assignment \<^verbatim>\<open>d[k] = v\<close> is
  \<^const>\<open>AList.update\<close>. Reading \<^verbatim>\<open>d[k]\<close> from a \<^verbatim>\<open>defaultdict\<close> yields the default
  where the key is missing.
\<close>

type_synonym 'v dict = "(string \<times> 'v) list"

definition keys :: "'v dict \<Rightarrow> string list" where
  "keys d = map fst d"

definition values_of :: "'v dict \<Rightarrow> 'v list" where
  "values_of d = map snd d"

definition defaultdict_get :: "'v \<Rightarrow> 'v dict \<Rightarrow> string \<Rightarrow> 'v" where
  "defaultdict_get dflt d k = (case map_of d k of None \<Rightarrow> dflt | Some v \<Rightarrow> v)"

definition sorted_keys :: "'v dict \<Rightarrow> string list" where
  "sorted_keys d = sort (keys d)"

text \<open>\<^verbatim>\<open>str(n)\<close> for an integer: decimal digits, with a minus sign for a negative one.\<close>

fun str_nat :: "nat \<Rightarrow> string" where
  "str_nat n =
     (if n < 10 then [''0123456789'' ! n]
      else str_nat (n div 10) @ [''0123456789'' ! (n mod 10)])"

declare str_nat.simps [simp del]

definition str_int :: "int \<Rightarrow> string" where
  "str_int i = (if i < 0 then ''-'' @ str_nat (nat (- i)) else str_nat (nat i))"

text \<open>\<^verbatim>\<open>s.startswith(p)\<close>.\<close>

fun startswith :: "string \<Rightarrow> string \<Rightarrow> bool" where
  "startswith s [] = True"
| "startswith [] (p # ps) = False"
| "startswith (c # s) (p # ps) = (c = p \<and> startswith s ps)"

text \<open>
  \<^verbatim>\<open>eprint\<close> prints its arguments to the error stream: the text and a newline. The
  error stream is the string of everything written to it.
\<close>

definition newline :: char where
  "newline = CHR 0x0A"

definition eprint :: "string \<Rightarrow> string" where
  "eprint s = s @ [newline]"

text \<open>
  \<^verbatim>\<open>os.path.basename\<close> and \<^verbatim>\<open>os.path.splitext\<close> of \<^verbatim>\<open>posixpath\<close>: the base name is
  what follows the last slash; the extension starts at the last dot of the base name,
  unless only dots precede it.
\<close>

definition basename :: "string \<Rightarrow> string" where
  "basename p = rev (takeWhile (\<lambda>c. c \<noteq> CHR ''/'') (rev p))"

definition splitext :: "string \<Rightarrow> string \<times> string" where
  "splitext p =
     (let b = basename p;
          ext = rev (takeWhile (\<lambda>c. c \<noteq> CHR ''.'') (rev b));
          stem = take (length b - length ext - 1) b
      in if CHR ''.'' \<in> set b \<and> (\<exists>c \<in> set stem. c \<noteq> CHR ''.'')
         then (take (length p - length ext - 1) p, CHR ''.'' # ext)
         else (p, []))"

subsection \<open>colorCode and contrastingColor\<close>

text \<open>
  \<^verbatim>\<open>colorCode\<close> (lines 78 to 83):
  \<^verbatim>\<open>return hex if hex.startswith('#') else '#' + hex\<close>
\<close>

definition colorCode :: "string \<Rightarrow> string" where
  "colorCode hex = (if startswith hex ''#'' then hex else ''#'' @ hex)"

text \<open>
  \<^verbatim>\<open>contrastingColor\<close> (lines 88 to 94):
  \<^verbatim>\<open>
  brightness = (rgb[0] * 299 + rgb[1] * 587 + rgb[2] * 114) / 1000
  return "#ffffff" if brightness < 123 else "#000000"
  \<close>

  The module imports \<^verbatim>\<open>division\<close> from \<^verbatim>\<open>__future__\<close>, so \<^verbatim>\<open>/\<close> is true division and
  the brightness is a fraction, not a truncated integer. It is modelled as a rational
  number. Python computes the double nearest to the quotient; for components between 0 and
  255 the comparison with 123 comes out the same, since rounding to the nearest double is
  monotone, 123 is a double, and so is \<open>123 - 1/1024\<close>, which lies above every quotient
  \<open>n / 1000 < 123\<close> with \<open>n\<close> an integer.
\<close>

definition brightness :: "int \<times> int \<times> int \<Rightarrow> rat" where
  "brightness rgb =
     (case rgb of (r, g, b) \<Rightarrow> rat_of_int (r * 299 + g * 587 + b * 114) / 1000)"

definition contrastingColor :: "int \<times> int \<times> int \<Rightarrow> string" where
  "contrastingColor rgb = (if brightness rgb < 123 then ''#ffffff'' else ''#000000'')"

subsection \<open>The configuration loader\<close>

text \<open>
  A biome file holds one JSON object. The program reads three of its keys: \<^verbatim>\<open>enabled\<close>
  (a boolean), \<^verbatim>\<open>biomeType\<close> (a string) and \<^verbatim>\<open>biomeColors\<close> (a list of strings). A
  field is \<open>None\<close> where the object has no such key. Objects whose values have other JSON
  types are outside this model.

  \<^verbatim>\<open>simplejson.load\<close> has three outcomes. On a syntax error it raises its own
  \<^verbatim>\<open>JSONDecodeError\<close>, with a line, a column and a message. On content whose bytes are
  not UTF-8 it raises \<^verbatim>\<open>UnicodeDecodeError\<close>, which has no line and no column.
  Otherwise it returns the object. The files found by \<^verbatim>\<open>glob.glob\<close> are a list of file
  names, each with what parsing its content gives, in the order of the glob.
\<close>

record biome =
  enabled :: "bool option"
  biomeType :: "string option"
  biomeColors :: "string list option"

datatype parse_result =
    JSONDecodeError int int string
  | UnicodeDecodeError
  | Parsed biome

type_synonym biome_file = "string \<times> parse_result"

type_synonym biomes_by_type = "biome dict dict"

text \<open>
  The body of the loop over the files (lines 140 to 149). The name \<^verbatim>\<open>JSONDecodeError\<close>
  of the \<^verbatim>\<open>except\<close> clause is imported from \<^verbatim>\<open>boto.utils\<close> (line 13), where it is
  \<^verbatim>\<open>ValueError\<close>: the clause catches the parser's \<^verbatim>\<open>JSONDecodeError\<close> and its
  \<^verbatim>\<open>UnicodeDecodeError\<close> alike, both being subclasses of \<^verbatim>\<open>ValueError\<close>. For the
  second, the handler raises \<^verbatim>\<open>AttributeError\<close> when it reads \<^verbatim>\<open>err.lineno\<close>, before
  it prints anything, and nothing catches that. A missing key raises \<^verbatim>\<open>KeyError\<close>, which
  is no \<^verbatim>\<open>ValueError\<close>, out of the loop. The first component of the result is what the
  step writes to the error stream.
  \<^verbatim>\<open>
  baseName, _ = os.path.splitext(os.path.basename(biomeFileName))
  try:
      biome = simplejson.load(biomeFile)
      enabledStatus = 'Enabled' if biome['enabled'] else 'Disabled'
      biomesByType[biome['biomeType']][baseName] = biome
  except JSONDecodeError as err:
      eprint('JSON error: ' + biomeFileName + ': line ' + str(err.lineno)
             + ', column ' + str(err.colno) + ': ' + err.msg)
  \<close>
\<close>

text \<open>
  The exception of \<^verbatim>\<open>err.lineno\<close> on a \<^verbatim>\<open>UnicodeDecodeError\<close>; \<open>CHR 0x27\<close> is the
  single quote.
\<close>

definition lineno_error :: error where
  "lineno_error =
     AttributeError (CHR 0x27 # ''UnicodeDecodeError'' @ CHR 0x27
        # '' object has no attribute '' @ CHR 0x27 # ''lineno'' @ [CHR 0x27])"

definition json_error_message :: "string \<Rightarrow> int \<Rightarrow> int \<Rightarrow> string \<Rightarrow> string" where
  "json_error_message biomeFileName lineno colno msg =
     ''JSON error: '' @ biomeFileName @ '': line '' @ str_int lineno
       @ '', column '' @ str_int colno @ '': '' @ msg"

definition load_file ::
  "biomes_by_type \<Rightarrow> biome_file \<Rightarrow> string \<times> (error + biomes_by_type)" where
  "load_file biomesByType f =
     (case f of (biomeFileName, parsed) \<Rightarrow>
        let baseName = fst (splitext (basename biomeFileName)) in
        (case parsed of
          JSONDecodeError lineno colno msg \<Rightarrow>
            (eprint (json_error_message biomeFileName lineno colno msg), Inr biomesByType)
        | UnicodeDecodeError \<Rightarrow> ([], Inl lineno_error)
        | Parsed b \<Rightarrow>
            (case enabled b of
               None \<Rightarrow> ([], Inl (KeyError ''enabled''))
             | Some en \<Rightarrow>
                 let enabledStatus = (if en then ''Enabled'' else ''Disabled'') in
                 (case biomeType b of
                    None \<Rightarrow> ([], Inl (KeyError ''biomeType''))
                  | Some t \<Rightarrow>
                      ([], Inr (AList.update t
                                 (AList.update baseName b (defaultdict_get [] biomesByType t))
                                 biomesByType))))))"

fun load_files ::
  "biomes_by_type \<Rightarrow> biome_file list \<Rightarrow> string \<times> (error + biomes_by_type)" where
  "load_files biomesByType [] = ([], Inr biomesByType)"
| "load_files biomesByType (f # fs) =
     (case load_file biomesByType f of
        (out, Inl e) \<Rightarrow> (out, Inl e)
      | (out, Inr biomesByType') \<Rightarrow>
          (case load_files biomesByType' fs of (out', res) \<Rightarrow> (out @ out', res)))"

subsection \<open>The patch extractor\<close>

text \<open>
  \<^verbatim>\<open>
  biomePatches = defaultdict(list)
  for biomeType in sorted(biomesByType.keys()):
      for biomeName in sorted(biomesByType[biomeType]):
          biome = biomesByType[biomeType][biomeName]
          for biomeColor in biome['biomeColors']:
              biomePatches[biomeType].append(
                  { 'biomeName': biomeName, 'biomeColor': colorCode(biomeColor) })
  \<close>
  These are lines 152 to 157. One function for each loop, innermost first. An entry of
  \<^verbatim>\<open>biomePatches\<close> comes into being with the first patch appended to it.
\<close>

record patch =
  biomeName :: string
  biomeColor :: string

type_synonym biome_patches = "patch list dict"

definition append_patch :: "biome_patches \<Rightarrow> string \<Rightarrow> patch \<Rightarrow> biome_patches" where
  "append_patch biomePatches t p =
     AList.update t (defaultdict_get [] biomePatches t @ [p]) biomePatches"

fun extract_colors :: "biome_patches \<Rightarrow> string \<Rightarrow> string \<Rightarrow> string list \<Rightarrow> biome_patches" where
  "extract_colors biomePatches t name [] = biomePatches"
| "extract_colors biomePatches t name (c # cs) =
     extract_colors
       (append_patch biomePatches t \<lparr>biomeName = name, biomeColor = colorCode c\<rparr>) t name cs"

fun extract_names ::
  "biome_patches \<Rightarrow> string \<Rightarrow> biome dict \<Rightarrow> string list \<Rightarrow> error + biome_patches" where
  "extract_names biomePatches t biomes [] = Inr biomePatches"
| "extract_names biomePatches t biomes (name # names) =
     (case map_of biomes name of
        None \<Rightarrow> Inl (KeyError name)
      | Some b \<Rightarrow>
          (case biomeColors b of
             None \<Rightarrow> Inl (KeyError ''biomeColors'')
           | Some cs \<Rightarrow> extract_names (extract_colors biomePatches t name cs) t biomes names))"

fun extract_types ::
  "biome_patches \<Rightarrow> biomes_by_type \<Rightarrow> string list \<Rightarrow> error + biome_patches" where
  "extract_types biomePatches biomesByType [] = Inr biomePatches"
| "extract_types biomePatches biomesByType (t # ts) =
     (let biomes = defaultdict_get [] biomesByType t in
      (case extract_names biomePatches t biomes (sorted_keys biomes) of
         Inl e \<Rightarrow> Inl e
       | Inr biomePatches' \<Rightarrow> extract_types biomePatches' biomesByType ts))"

definition extractPatches :: "biomes_by_type \<Rightarrow> error + biome_patches" where
  "extractPatches biomesByType = extract_types [] biomesByType (sorted_keys biomesByType)"

subsection \<open>The layout planner\<close>

text \<open>
  What the program takes from its libraries is a parameter of the model:
  \<^item> \<open>ceil_cbrt n\<close> is the value of \<^verbatim>\<open>int(ceil(pow(n, 1/3.0)))\<close>, a floating-point
    computation of the C library;
  \<^item> \<open>getsize s\<close> is \<^verbatim>\<open>font.getsize(s)\<close> and \<open>textsize s\<close> is
    \<^verbatim>\<open>draw.textsize(s, font=font)\<close>, the width and height of a text in pixels;
  \<^item> \<open>getrgb s\<close> is \<^verbatim>\<open>ImageColor.getrgb(s)\<close>, which raises on a colour it cannot
    resolve.

  What a property needs of the cube root is a hypothesis of that property: that it is at
  least 1 on an argument that is at least 1 (\<^verbatim>\<open>pow(1, y)\<close> is exactly 1, and the cube
  root of 2 is well above 1), or that it is the ceiling of the real cube root.
\<close>

record env =
  ceil_cbrt :: "int \<Rightarrow> int"
  getsize :: "string \<Rightarrow> int \<times> int"
  textsize :: "string \<Rightarrow> int \<times> int"
  getrgb :: "string \<Rightarrow> error + (int \<times> int \<times> int)"

text \<open>\<^verbatim>\<open>max(xs)\<close> raises \<^verbatim>\<open>ValueError\<close> on an empty sequence.\<close>

definition py_max :: "int list \<Rightarrow> error + int" where
  "py_max xs =
     (case xs of
        [] \<Rightarrow> Inl (ValueError ''max() arg is an empty sequence'')
      | x # ys \<Rightarrow> Inr (fold max ys x))"

record layout =
  maxPatches :: int
  wrapColumns :: int
  biomeTypeRows :: "int dict"
  rows :: int
  columns :: int
  patchPadding :: int
  firstColumnWidth :: int
  patchWidth :: int
  patchHeight :: int
  imageWidth :: int
  imageHeight :: int

text \<open>
  \<^verbatim>\<open>
  for biomeType, patches in biomePatches.iteritems():
      wrappedRows = (wrapColumns - 1 + len(patches)) // wrapColumns
      biomeTypeRows[biomeType] = wrappedRows
      rows += wrappedRows
  \<close>
  These are lines 175 to 178. Floor division by zero raises \<^verbatim>\<open>ZeroDivisionError\<close>.
\<close>

fun wrap_rows :: "int \<Rightarrow> biome_patches \<Rightarrow> int dict \<times> int \<Rightarrow> error + (int dict \<times> int)" where
  "wrap_rows wrapC [] acc = Inr acc"
| "wrap_rows wrapC ((t, patches) # rest) (typeRows, rws) =
     (if wrapC = 0 then Inl ZeroDivisionError
      else let wrappedRows = (wrapC - 1 + int (length patches)) div wrapC
           in wrap_rows wrapC rest (AList.update t wrappedRows typeRows, rws + wrappedRows))"

text \<open>
  \<^verbatim>\<open>
  textSize = font.getsize(patch['biomeName'])
  patchWidth = max(textSize[0] + 2 * patchPadding, patchWidth)
  patchHeight = max(patchTextRows * textSize[1] + 2 * patchPadding, patchHeight)
  \<close>
\<close>

definition patchTextRows :: int where
  "patchTextRows = 7"

definition measure_patch :: "env \<Rightarrow> int \<Rightarrow> patch \<Rightarrow> int \<times> int \<Rightarrow> int \<times> int" where
  "measure_patch e padding p acc =
     (case acc of (pw, ph) \<Rightarrow>
        let textSize = getsize e (biomeName p)
        in (max (fst textSize + 2 * padding) pw,
            max (patchTextRows * snd textSize + 2 * padding) ph))"

definition measure_patches :: "env \<Rightarrow> int \<Rightarrow> biome_patches \<Rightarrow> int \<times> int" where
  "measure_patches e padding biomePatches =
     fold (\<lambda>patches acc. fold (measure_patch e padding) patches acc)
       (values_of biomePatches) (0, 0)"

text \<open>
  Lines 169 to 203, up to the size of the canvas:
  \<^verbatim>\<open>
  maxPatches = max(map(lambda patches: len(patches), biomePatches.values()))
  wrapColumns =  3 * int(ceil(pow(maxPatches, 1/3.0)))
  ...
  columns = min(maxPatches, wrapColumns)
  patchPadding = font.getsize('   ')[0]
  firstColumnWidth = 2 * patchPadding
      + max(map(lambda biomeType: font.getsize(biomeType)[0], biomePatches.keys()))
  ...
  imageWidth = 1 + firstColumnWidth + patchWidth * columns
  imageHeight = 1 + patchHeight * rows
  \<close>
\<close>

definition planLayout :: "env \<Rightarrow> biome_patches \<Rightarrow> error + layout" where
  "planLayout e biomePatches =
     (case py_max (map (\<lambda>patches. int (length patches)) (values_of biomePatches)) of
        Inl err \<Rightarrow> Inl err
      | Inr maxP \<Rightarrow>
          let wrapC = 3 * ceil_cbrt e maxP in
          (case wrap_rows wrapC biomePatches ([], 0) of
             Inl err \<Rightarrow> Inl err
           | Inr (typeRows, rws) \<Rightarrow>
               let cols = min maxP wrapC;
                   padding = fst (getsize e ''   '')
               in (case py_max (map (\<lambda>t. fst (getsize e t)) (keys biomePatches)) of
                     Inl err \<Rightarrow> Inl err
                   | Inr widest \<Rightarrow>
                       let firstW = 2 * padding + widest;
                           cell = measure_patches e padding biomePatches
                       in Inr \<lparr>maxPatches = maxP, wrapColumns = wrapC,
                               biomeTypeRows = typeRows, rows = rws, columns = cols,
                               patchPadding = padding, firstColumnWidth = firstW,
                               patchWidth = fst cell, patchHeight = snd cell,
                               imageWidth = 1 + firstW + fst cell * cols,
                               imageHeight = 1 + snd cell * rws\<rparr>)))"

subsection \<open>The renderer\<close>

text \<open>
  The canvas is the list of the drawing calls made on it, in order. A fill is a colour
  name or an RGB triple. The coordinates of a rectangle are integers; those of a text
  come from true division by two and are fractions.
\<close>

datatype color = ColorName string | ColorRGB "int \<times> int \<times> int"

datatype drawop =
    Rectangle "int \<times> int \<times> int \<times> int" color color
  | Text "rat \<times> rat" string color

record image =
  img_size :: "int \<times> int"
  img_background :: string
  img_drawn :: "drawop list"

text \<open>
  \<^verbatim>\<open>
  for line in lines:
      lineW, lineH = draw.textsize(line, font=font)
      draw.text((firstColumnWidth + (c % columns) * patchWidth + (patchWidth - lineW) / 2,
                 textY), line, font=font, fill=contrastingColor(rgb))
      textY += lineH + lineGap
  \<close>
\<close>

fun draw_lines ::
  "env \<Rightarrow> layout \<Rightarrow> int \<Rightarrow> int \<times> int \<times> int \<Rightarrow> rat \<Rightarrow> rat \<Rightarrow> string list \<Rightarrow> drawop list" where
  "draw_lines e L c rgb lineGap textY [] = []"
| "draw_lines e L c rgb lineGap textY (line # lines) =
     (case textsize e line of (lineW, lineH) \<Rightarrow>
        Text (rat_of_int (firstColumnWidth L + (c mod columns L) * patchWidth L)
                + rat_of_int (patchWidth L - lineW) / 2, textY)
             line (ColorName (contrastingColor rgb))
        # draw_lines e L c rgb lineGap (textY + rat_of_int lineH + lineGap) lines)"

text \<open>One patch: the body of the loop over the columns, after the test that ends it.\<close>

definition draw_patch :: "env \<Rightarrow> layout \<Rightarrow> int \<Rightarrow> int \<Rightarrow> patch \<Rightarrow> error + drawop list" where
  "draw_patch e L row c p =
     (let colorName = biomeColor p in
      (case getrgb e colorName of
         Inl err \<Rightarrow> Inl err
       | Inr rgb \<Rightarrow>
           (case rgb of (r, g, b) \<Rightarrow>
              let lines = [biomeName p, colorName,
                           str_int r @ ''  '' @ str_int g @ ''  '' @ str_int b];
                  line0Height = snd (textsize e (biomeName p));
                  lineGap = rat_of_int line0Height / 2;
                  totalTextHeight = 3 * rat_of_int line0Height + 2 * lineGap;
                  textY = rat_of_int (row * patchHeight L)
                            + (rat_of_int (patchHeight L) - totalTextHeight) / 2
              in Inr (Rectangle (firstColumnWidth L + c * patchWidth L,
                                 row * patchHeight L,
                                 firstColumnWidth L + (c + 1) * patchWidth L,
                                 (row + 1) * patchHeight L)
                        (ColorRGB rgb) (ColorName ''#000000'')
                      # draw_lines e L c rgb lineGap textY lines))))"

text \<open>
  \<^verbatim>\<open>
  for c in range(columns):
      patchIndex = r * columns + c
      if patchIndex >= len(patches):
          break
      patch = patches[patchIndex]
  \<close>
  \<open>r\<close>, \<open>c\<close> and \<open>columns\<close> are not negative here, so neither is the index.
\<close>

fun draw_cols ::
  "env \<Rightarrow> layout \<Rightarrow> patch list \<Rightarrow> int \<Rightarrow> int \<Rightarrow> int list \<Rightarrow> error + drawop list" where
  "draw_cols e L patches row r [] = Inr []"
| "draw_cols e L patches row r (c # cs) =
     (let patchIndex = r * columns L + c in
      if patchIndex \<ge> int (length patches) then Inr []
      else (case draw_patch e L row c (patches ! nat patchIndex) of
              Inl err \<Rightarrow> Inl err
            | Inr ops \<Rightarrow>
                (case draw_cols e L patches row r cs of
                   Inl err \<Rightarrow> Inl err
                 | Inr ops' \<Rightarrow> Inr (ops @ ops'))))"

text \<open>\<^verbatim>\<open>range(n)\<close> is empty for \<open>n \<le> 0\<close>.\<close>

definition range :: "int \<Rightarrow> int list" where
  "range n = map int [0..<nat n]"

text \<open>One wrapped row: the label cell in the first column, then the patches.\<close>

definition draw_row ::
  "env \<Rightarrow> layout \<Rightarrow> string \<Rightarrow> patch list \<Rightarrow> int \<Rightarrow> int \<Rightarrow> error + drawop list" where
  "draw_row e L t patches row r =
     (let textSize = getsize e t in
      (case draw_cols e L patches row r (range (columns L)) of
         Inl err \<Rightarrow> Inl err
       | Inr ops \<Rightarrow>
           Inr ([Rectangle (0, row * patchHeight L, firstColumnWidth L,
                            (row + 1) * patchHeight L)
                   (ColorName ''#404040'') (ColorName ''#000000''),
                 Text (rat_of_int (firstColumnWidth L - fst textSize) / 2,
                       rat_of_int (row * patchHeight L)
                         + rat_of_int (patchHeight L - snd textSize) / 2)
                   t (ColorName ''#ffffff'')]
                @ ops)))"

text \<open>The rows of one biome type; the result carries the row counter on.\<close>

fun draw_rows ::
  "env \<Rightarrow> layout \<Rightarrow> string \<Rightarrow> patch list \<Rightarrow> int \<Rightarrow> int list \<Rightarrow> error + (drawop list \<times> int)" where
  "draw_rows e L t patches row [] = Inr ([], row)"
| "draw_rows e L t patches row (r # rs) =
     (case draw_row e L t patches row r of
        Inl err \<Rightarrow> Inl err
      | Inr ops \<Rightarrow>
          (case draw_rows e L t patches (row + 1) rs of
             Inl err \<Rightarrow> Inl err
           | Inr (ops', row') \<Rightarrow> Inr (ops @ ops', row')))"

text \<open>
  \<^verbatim>\<open>
  row = 0
  for biomeType in sorted(biomePatches.keys()):
      patches = biomePatches[biomeType]
      for r in range(biomeTypeRows[biomeType]):
  \<close>
  \<^verbatim>\<open>biomeTypeRows\<close> is a plain dictionary: a missing key raises.
\<close>

fun draw_types ::
  "env \<Rightarrow> layout \<Rightarrow> biome_patches \<Rightarrow> int \<Rightarrow> string list \<Rightarrow> error + drawop list" where
  "draw_types e L biomePatches row [] = Inr []"
| "draw_types e L biomePatches row (t # ts) =
     (let patches = defaultdict_get [] biomePatches t in
      (case map_of (biomeTypeRows L) t of
         None \<Rightarrow> Inl (KeyError t)
       | Some n \<Rightarrow>
           (case draw_rows e L t patches row (range n) of
              Inl err \<Rightarrow> Inl err
            | Inr (ops, row') \<Rightarrow>
                (case draw_types e L biomePatches row' ts of
                   Inl err \<Rightarrow> Inl err
                 | Inr ops' \<Rightarrow> Inr (ops @ ops')))))"

definition render :: "env \<Rightarrow> layout \<Rightarrow> biome_patches \<Rightarrow> error + image" where
  "render e L biomePatches =
     (case draw_types e L biomePatches 0 (sorted_keys biomePatches) of
        Inl err \<Rightarrow> Inl err
      | Inr ops \<Rightarrow>
          Inr \<lparr>img_size = (imageWidth L, imageHeight L), img_background = ''#404040'',
               img_drawn = ops\<rparr>)"

subsection \<open>The whole run\<close>

text \<open>
  A run gives what the program wrote to the error stream, and either the exception that
  ended it or the image that \<^verbatim>\<open>img.save\<close> writes. The printing under \<^verbatim>\<open>--debug\<close> goes
  to the standard output and changes no variable; it is left out, as are the parsing
  of the arguments and the viewer.
\<close>

definition run :: "env \<Rightarrow> biome_file list \<Rightarrow> string \<times> (error + image)" where
  "run e files =
     (case load_files [] files of
        (out, Inl err) \<Rightarrow> (out, Inl err)
      | (out, Inr biomesByType) \<Rightarrow>
          (out,
           (case extractPatches biomesByType of
              Inl err \<Rightarrow> Inl err
            | Inr biomePatches \<Rightarrow>
                (case planLayout e biomePatches of
                   Inl err \<Rightarrow> Inl err
                 | Inr L \<Rightarrow> render e L biomePatches))))"

subsection \<open>Notions used to state the properties\<close>

text \<open>
  Two inputs differ only in the values of \<^verbatim>\<open>enabled\<close> when they are equal once every
  value of \<^verbatim>\<open>enabled\<close> that is present is replaced by the same one. The same is done
  to a grouping, which stores the whole records, and to what the loader returns.
\<close>

definition forget_enabled_biome :: "biome \<Rightarrow> biome" where
  "forget_enabled_biome b = b\<lparr>enabled := map_option (\<lambda>_. True) (enabled b)\<rparr>"

fun forget_enabled :: "biome_file \<Rightarrow> biome_file" where
  "forget_enabled (fileName, Parsed b) = (fileName, Parsed (forget_enabled_biome b))"
| "forget_enabled (fileName, JSONDecodeError lineno colno msg) =
     (fileName, JSONDecodeError lineno colno msg)"
| "forget_enabled (fileName, UnicodeDecodeError) = (fileName, UnicodeDecodeError)"

definition forget_enabled_biomes :: "biome dict \<Rightarrow> biome dict" where
  "forget_enabled_biomes biomes = map (\<lambda>(name, b). (name, forget_enabled_biome b)) biomes"

definition forget_enabled_grouping :: "biomes_by_type \<Rightarrow> biomes_by_type" where
  "forget_enabled_grouping g = map (\<lambda>(t, biomes). (t, forget_enabled_biomes biomes)) g"

definition forget_enabled_loaded ::
  "string \<times> (error + biomes_by_type) \<Rightarrow> string \<times> (error + biomes_by_type)" where
  "forget_enabled_loaded res = (fst res, map_sum id forget_enabled_grouping (snd res))"

text \<open>
  The patch list of a biome type as the specification words it: for the biome names in
  lexicographic order, the colour codes of the biome, normalised, in the order of the
  source list.
\<close>

definition biome_patch_list :: "string \<Rightarrow> biome \<Rightarrow> patch list" where
  "biome_patch_list name b =
     (case biomeColors b of
        None \<Rightarrow> []
      | Some cs \<Rightarrow> map (\<lambda>c. \<lparr>biomeName = name, biomeColor = colorCode c\<rparr>) cs)"

definition names_patch_list :: "biome dict \<Rightarrow> string list \<Rightarrow> patch list" where
  "names_patch_list biomes names =
     concat (map (\<lambda>name. case map_of biomes name of
                             None \<Rightarrow> []
                           | Some b \<Rightarrow> biome_patch_list name b) names)"

definition type_patch_list :: "biome dict \<Rightarrow> patch list" where
  "type_patch_list biomes = names_patch_list biomes (sort (keys biomes))"

text \<open>The pattern \<^verbatim>\<open>#[0-9A-Fa-f]{6}\<close>, matched against the whole string.\<close>

definition is_hex_digit :: "char \<Rightarrow> bool" where
  "is_hex_digit c = (c \<in> set ''0123456789ABCDEFabcdef'')"

definition matches_hex_color :: "string \<Rightarrow> bool" where
  "matches_hex_color s =
     (case s of [] \<Rightarrow> False | c # t \<Rightarrow> c = CHR ''#'' \<and> length t = 6 \<and> list_all is_hex_digit t)"

text \<open>A grouping whose dictionaries have each key once, as Python's have.\<close>

definition dict_ok :: "biomes_by_type \<Rightarrow> bool" where
  "dict_ok g = (distinct (keys g) \<and> list_all (\<lambda>(t, biomes). distinct (keys biomes)) g)"

text \<open>
  The labels of the rows of a canvas, in drawing order: a label cell is a rectangle filled
  with a colour name (a patch is filled with an RGB triple), and the text drawn right
  after it is the biome type of the row. \<open>type_row_labels\<close> is the label of a type, once
  for each of its rows.
\<close>

fun row_labels_from :: "bool \<Rightarrow> drawop list \<Rightarrow> string list" where
  "row_labels_from after_label [] = []"
| "row_labels_from after_label (Rectangle box (ColorName fill) outline # ops) =
     row_labels_from True ops"
| "row_labels_from after_label (Rectangle box (ColorRGB fill) outline # ops) =
     row_labels_from False ops"
| "row_labels_from after_label (Text pos s fill # ops) =
     (if after_label then [s] else []) @ row_labels_from False ops"

definition row_labels :: "drawop list \<Rightarrow> string list" where
  "row_labels ops = row_labels_from False ops"

definition type_row_labels :: "layout \<Rightarrow> string \<Rightarrow> string list" where
  "type_row_labels L t =
     (case map_of (biomeTypeRows L) t of None \<Rightarrow> [] | Some n \<Rightarrow> replicate (nat n) t)"

subsection \<open>A small world, for concrete runs\<close>

text \<open>
  An environment that can be evaluated: the least \<open>k\<close> with \<open>n \<le> k\<^sup>3\<close> for the cube
  root, a font whose characters are 8 pixels wide and 16 high, and a colour resolver for
  \<^verbatim>\<open>#rrggbb\<close> in lower case. Three biome files and one file that does not parse.
\<close>

definition example_ceil_cbrt :: "int \<Rightarrow> int" where
  "example_ceil_cbrt n = int (length (takeWhile (\<lambda>k. int k ^ 3 < n) [0..<nat n]))"

definition example_getsize :: "string \<Rightarrow> int \<times> int" where
  "example_getsize s = (8 * int (length s), 16)"

definition hex_digit_value :: "char \<Rightarrow> int" where
  "hex_digit_value c = int (length (takeWhile (\<lambda>d. d \<noteq> c) ''0123456789abcdef''))"

definition example_getrgb :: "string \<Rightarrow> error + (int \<times> int \<times> int)" where
  "example_getrgb s =
     (if length s = 7 \<and> hd s = CHR ''#'' \<and> list_all (\<lambda>c. c \<in> set ''0123456789abcdef'') (tl s)
      then Inr (16 * hex_digit_value (s ! 1) + hex_digit_value (s ! 2),
                16 * hex_digit_value (s ! 3) + hex_digit_value (s ! 4),
                16 * hex_digit_value (s ! 5) + hex_digit_value (s ! 6))
      else Inl (ValueError (''unknown color specifier: '' @ s)))"

definition example_env :: env where
  "example_env =
     \<lparr>ceil_cbrt = example_ceil_cbrt, getsize = example_getsize,
      textsize = example_getsize, getrgb = example_getrgb\<rparr>"

definition oak_file :: biome_file where
  "oak_file =
     (''w/settings/biomes/a/oak.json'',
      Parsed \<lparr>enabled = Some True, biomeType = Some ''Forest'',
              biomeColors = Some [''00ff00'']\<rparr>)"

definition bad_file :: biome_file where
  "bad_file = (''w/settings/biomes/a/bad.json'', JSONDecodeError 3 14 ''Expecting value'')"

definition dune_file :: biome_file where
  "dune_file =
     (''w/settings/biomes/a/dune.json'',
      Parsed \<lparr>enabled = Some False, biomeType = Some ''Desert'',
              biomeColors = Some [''#ffff00'', ''eeee00'', ''dddd00'']\<rparr>)"

definition birch_file :: biome_file where
  "birch_file =
     (''w/settings/biomes/b/birch.json'',
      Parsed \<lparr>enabled = Some True, biomeType = Some ''Forest'',
              biomeColors = Some [''#00ee00'']\<rparr>)"

definition garbled_file :: biome_file where
  "garbled_file = (''w/settings/biomes/a/garbled.json'', UnicodeDecodeError)"

definition uniform_patches :: "nat \<Rightarrow> biome_patches" where
  "uniform_patches n =
     [(''Plains'', replicate n \<lparr>biomeName = ''plains'', biomeColor = ''#00ff00''\<rparr>)]"

definition void_file :: biome_file where
  "void_file =
     (''w/settings/biomes/a/void.json'',
      Parsed \<lparr>enabled = Some True, biomeType = Some ''Void'', biomeColors = Some []\<rparr>)"

definition example_files :: "biome_file list" where
  "example_files = [oak_file, bad_file, dune_file, birch_file]"

definition flipped_files :: "biome_file list" where
  "flipped_files =
     [(''w/settings/biomes/a/oak.json'',
       Parsed \<lparr>enabled = Some False, biomeType = Some ''Forest'',
               biomeColors = Some [''00ff00'']\<rparr>),
      bad_file,
      (''w/settings/biomes/a/dune.json'',
       Parsed \<lparr>enabled = Some True, biomeType = Some ''Desert'',
               biomeColors = Some [''#ffff00'', ''eeee00'', ''dddd00'']\<rparr>),
      birch_file]"

definition example_grouping :: biomes_by_type where
  "example_grouping =
     [(''Forest'',
       [(''oak'', \<lparr>enabled = Some True, biomeType = Some ''Forest'',
                  biomeColors = Some [''00ff00'']\<rparr>),
        (''birch'', \<lparr>enabled = Some True, biomeType = Some ''Forest'',
                    biomeColors = Some [''#00ee00'']\<rparr>)]),
      (''Desert'',
       [(''dune'', \<lparr>enabled = Some False, biomeType = Some ''Desert'',
                   biomeColors = Some [''#ffff00'', ''eeee00'', ''dddd00'']\<rparr>)])]"

definition example_patches :: biome_patches where
  "example_patches =
     [(''Desert'',
       [\<lparr>biomeName = ''dune'', biomeColor = ''#ffff00''\<rparr>,
        \<lparr>biomeName = ''dune'', biomeColor = ''#eeee00''\<rparr>,
        \<lparr>biomeName = ''dune'', biomeColor = ''#dddd00''\<rparr>]),
      (''Forest'',
       [\<lparr>biomeName = ''birch'', biomeColor = ''#00ee00''\<rparr>,
        \<lparr>biomeName = ''oak'', biomeColor = ''#00ff00''\<rparr>])]"

definition example_layout :: layout where
  "example_layout =
     \<lparr>maxPatches = 3, wrapColumns = 6, biomeTypeRows = [(''Desert'', 1), (''Forest'', 1)],
      rows = 2, columns = 3, patchPadding = 24, firstColumnWidth = 96, patchWidth = 88,
      patchHeight = 160, imageWidth = 361, imageHeight = 321\<rparr>"

section \<open>Properties\<close>

subsection \<open>The small world, evaluated\<close>

lemma load_oak: "load_files [] [oak_file] =
   ([], Inr [(''Forest'', [(''oak'', \<lparr>enabled = Some True, biomeType = Some ''Forest'',
              biomeColors = Some [''00ff00'']\<rparr>)])])"
  by (simp add: oak_file_def load_file_def splitext_def basename_def defaultdict_get_def Let_def)

lemma example_loaded:
  "load_files [] example_files =
     (''JSON error: w/settings/biomes/a/bad.json: line 3, column 14: Expecting value''
        @ [newline], Inr example_grouping)"
  by code_simp

lemma example_extracted: "extractPatches example_grouping = Inr example_patches"
  by code_simp

lemma example_planned: "planLayout example_env example_patches = Inr example_layout"
  by code_simp

lemma example_ceil_cbrt_pos: "1 \<le> n \<Longrightarrow> 1 \<le> example_ceil_cbrt n"
proof -
  assume n: "1 \<le> n"
  then have "[0..<nat n] = 0 # [1..<nat n]" by (simp add: upt_conv_Cons)
  then show ?thesis using n by (simp add: example_ceil_cbrt_def)
qed


subsection \<open>Colour codes\<close>

lemma startswith_hash: "startswith s ''#'' \<longleftrightarrow> take 1 s = ''#''"
  by (cases s) auto

text \<open>
  C8. \<^verbatim>\<open>colorCode\<close> is idempotent: a string that starts with \<^verbatim>\<open>#\<close> is returned
  unchanged, a string that does not is returned with exactly one \<^verbatim>\<open>#\<close> in front, and so
  normalising twice is normalising once.
\<close>

theorem colorCode_idempotent:
  "(take 1 s = ''#'' \<longrightarrow> colorCode s = s) \<and>
   (take 1 s \<noteq> ''#'' \<longrightarrow> colorCode s = CHR ''#'' # s) \<and>
   colorCode (colorCode s) = colorCode s"
  by (simp add: colorCode_def startswith_hash)

theorem colorCode_idempotent_witness:
  "take 1 ''#00ff00'' = ''#'' \<and> colorCode ''#00ff00'' = ''#00ff00'' \<and>
   take 1 ''00ff00'' \<noteq> ''#'' \<and> colorCode ''00ff00'' = ''#00ff00'' \<and>
   colorCode (colorCode ''00ff00'') = colorCode ''00ff00''"
proof -
  have h1: "take 1 ''#00ff00'' = ''#''" by simp
  have h2: "take 1 ''00ff00'' \<noteq> ''#''" by simp
  from colorCode_idempotent [of "''#00ff00''"] h1
  have c1: "colorCode ''#00ff00'' = ''#00ff00''" by blast
  from colorCode_idempotent [of "''00ff00''"] h2
  have c2: "colorCode ''00ff00'' = ''#00ff00''" by blast
  from colorCode_idempotent [of "''00ff00''"]
  have c3: "colorCode (colorCode ''00ff00'') = colorCode ''00ff00''" by blast
  show ?thesis using h1 h2 c1 c2 c3 by blast
qed

text \<open>
  C7. For an RGB triple with components from 0 to 255, \<^verbatim>\<open>contrastingColor\<close> returns
  white exactly when \<open>(R\<times>299 + G\<times>587 + B\<times>114) / 1000 < 123\<close>, which is when the weighted
  sum is below 123000, and black otherwise. Black on black gives white, white on white
  gives black, and a luminance of exactly 123 gives black.
\<close>

theorem contrastingColor_threshold:
  assumes "0 \<le> r" "r \<le> 255" "0 \<le> g" "g \<le> 255" "0 \<le> b" "b \<le> 255"
  shows "(contrastingColor (r, g, b) = ''#ffffff'' \<longleftrightarrow>
            rat_of_int (r * 299 + g * 587 + b * 114) / 1000 < 123) \<and>
         (contrastingColor (r, g, b) = ''#000000'' \<longleftrightarrow>
            \<not> rat_of_int (r * 299 + g * 587 + b * 114) / 1000 < 123) \<and>
         (contrastingColor (r, g, b) = ''#ffffff'' \<longleftrightarrow>
            r * 299 + g * 587 + b * 114 < 123000) \<and>
         (rat_of_int (r * 299 + g * 587 + b * 114) / 1000 = 123 \<longrightarrow>
            contrastingColor (r, g, b) = ''#000000'') \<and>
         contrastingColor (0, 0, 0) = ''#ffffff'' \<and>
         contrastingColor (255, 255, 255) = ''#000000''"
  by (simp add: contrastingColor_def brightness_def)

theorem contrastingColor_threshold_witness:
  "rat_of_int (123 * 299 + 123 * 587 + 123 * 114) / 1000 = 123 \<and>
   contrastingColor (123, 123, 123) = ''#000000'' \<and>
   rat_of_int (122 * 299 + 123 * 587 + 123 * 114) / 1000 < 123 \<and>
   contrastingColor (122, 123, 123) = ''#ffffff''"
proof -
  have e: "rat_of_int (123 * 299 + 123 * 587 + 123 * 114) / 1000 = 123" by simp
  have l: "rat_of_int (122 * 299 + 123 * 587 + 123 * 114) / 1000 < 123" by simp
  have "contrastingColor (123, 123, 123) = ''#000000''"
    using contrastingColor_threshold [of 123 123 123] e by simp
  moreover have "contrastingColor (122, 123, 123) = ''#ffffff''"
    using contrastingColor_threshold [of 122 123 123] l by simp
  ultimately show ?thesis using e l by blast
qed

subsection \<open>The loader: files that do not parse, records without a key\<close>

lemma load_files_append:
  "load_files d (xs @ ys) =
     (case load_files d xs of
        (out1, Inl e) \<Rightarrow> (out1, Inl e)
      | (out1, Inr d1) \<Rightarrow> (case load_files d1 ys of (out2, res) \<Rightarrow> (out1 @ out2, res)))"
  by (induction xs arbitrary: d) (auto split: prod.splits sum.splits)

lemma load_files_append_ok:
  assumes "load_files d xs = (out1, Inr d1)"
  shows "load_files d (xs @ ys) = (out1 @ fst (load_files d1 ys), snd (load_files d1 ys))"
  using assms by (simp add: load_files_append split: prod.splits)

lemma load_file_json_error:
  "load_file d (fileName, JSONDecodeError lineno colno msg) =
     (eprint (json_error_message fileName lineno colno msg), Inr d)"
  by (simp add: load_file_def)

lemma digit_not_newline: "k < 10 \<Longrightarrow> ''0123456789'' ! k \<noteq> newline"
proof -
  assume "k < 10"
  then have "''0123456789'' ! k \<in> set ''0123456789''" by (intro nth_mem) simp
  moreover have "newline \<notin> set ''0123456789''" by (simp add: newline_def)
  ultimately show ?thesis by metis
qed

lemma newline_notin_str_nat: "newline \<notin> set (str_nat n)"
proof (induction n rule: str_nat.induct)
  case (1 n)
  show ?case
  proof (cases "n < 10")
    case True
    then show ?thesis using digit_not_newline [of n] by (subst str_nat.simps) auto
  next
    case False
    then have "newline \<notin> set (str_nat (n div 10))" using 1 by simp
    moreover have "''0123456789'' ! (n mod 10) \<noteq> newline" by (rule digit_not_newline) simp
    ultimately show ?thesis using False by (subst str_nat.simps) auto
  qed
qed

lemma newline_notin_str_int: "newline \<notin> set (str_int i)"
  by (simp add: str_int_def newline_notin_str_nat) (simp add: newline_def)

lemma count_newline_message:
  assumes "newline \<notin> set fileName" "newline \<notin> set msg"
  shows "count_list (eprint (json_error_message fileName lineno colno msg)) newline = 1"
proof -
  have "newline \<notin> set (json_error_message fileName lineno colno msg)"
    using assms by (simp add: json_error_message_def newline_notin_str_int) (simp add: newline_def)
  then show ?thesis by (simp add: eprint_def count_list_0_iff)
qed




lemma load_file_missing_key:
  assumes "biomeType b = None \<or> enabled b = None"
  shows "load_file d (fileName, Parsed b) =
      ([], Inl (KeyError (if enabled b = None then ''enabled'' else ''biomeType'')))"
  using assms by (auto simp: load_file_def Let_def split: option.splits)


text \<open>
  The syntax-error path of the \<^verbatim>\<open>except\<close> clause. A file on which the parser raises its
  \<^verbatim>\<open>JSONDecodeError\<close> writes exactly one line to the error stream: \<^verbatim>\<open>JSON error: \<close>,
  the name of the file, the line and the column of the error and its message. The file is
  skipped: the files before it being loaded, the grouping after it is the grouping before
  it, the files after it are loaded as if it were not there, and the run ends as it would
  without the file. The text is one line as long as neither the file name nor the parser's
  message holds a newline.
\<close>


lemma json_error_reported_and_skipped:
  assumes "load_files [] pre = (out1, Inr d1)"
  shows "load_file d1 (fileName, JSONDecodeError lineno colno msg) =
           (''JSON error: '' @ fileName @ '': line '' @ str_int lineno @ '', column ''
              @ str_int colno @ '': '' @ msg @ [newline], Inr d1) \<and>
         load_files [] (pre @ (fileName, JSONDecodeError lineno colno msg) # post) =
           (out1 @ eprint (json_error_message fileName lineno colno msg)
              @ fst (load_files d1 post), snd (load_files d1 post)) \<and>
         load_files [] (pre @ post) = (out1 @ fst (load_files d1 post), snd (load_files d1 post)) \<and>
         snd (run e (pre @ (fileName, JSONDecodeError lineno colno msg) # post)) =
           snd (run e (pre @ post)) \<and>
         (newline \<notin> set fileName \<and> newline \<notin> set msg \<longrightarrow>
            count_list (eprint (json_error_message fileName lineno colno msg)) newline = 1)"
proof -
  let ?bad = "(fileName, JSONDecodeError lineno colno msg)"
  have step: "load_file d1 ?bad = (eprint (json_error_message fileName lineno colno msg), Inr d1)"
    by (rule load_file_json_error)
  have a: "load_file d1 ?bad =
           (''JSON error: '' @ fileName @ '': line '' @ str_int lineno @ '', column ''
              @ str_int colno @ '': '' @ msg @ [newline], Inr d1)"
    by (simp add: step eprint_def json_error_message_def)
  have tail: "load_files d1 (?bad # post) =
      (eprint (json_error_message fileName lineno colno msg) @ fst (load_files d1 post),
       snd (load_files d1 post))"
    by (simp add: step split: prod.splits)
  have b: "load_files [] (pre @ ?bad # post) =
           (out1 @ eprint (json_error_message fileName lineno colno msg)
              @ fst (load_files d1 post), snd (load_files d1 post))"
    using load_files_append_ok [OF assms, of "?bad # post"] unfolding tail by simp
  have c: "load_files [] (pre @ post) = (out1 @ fst (load_files d1 post), snd (load_files d1 post))"
    by (rule load_files_append_ok [OF assms])
  have d: "snd (run e (pre @ ?bad # post)) = snd (run e (pre @ post))"
    by (simp add: run_def b c split: sum.splits prod.splits)
  show ?thesis using a b c d count_newline_message by blast
qed

lemma json_error_reported_and_skipped_example:
  "load_files [] [oak_file] =
     ([], Inr [(''Forest'', [(''oak'', \<lparr>enabled = Some True, biomeType = Some ''Forest'',
              biomeColors = Some [''00ff00'']\<rparr>)])]) \<and>
   fst (load_files [] ([oak_file] @ (''w/settings/biomes/a/bad.json'', JSONDecodeError 3 14 ''Expecting value'') # [dune_file])) =
     ''JSON error: w/settings/biomes/a/bad.json: line 3, column 14: Expecting value'' @ [newline] \<and>
   snd (load_files [] ([oak_file] @ (''w/settings/biomes/a/bad.json'', JSONDecodeError 3 14 ''Expecting value'') # [dune_file])) =
     snd (load_files [] ([oak_file] @ [dune_file])) \<and>
   snd (run example_env ([oak_file] @ (''w/settings/biomes/a/bad.json'', JSONDecodeError 3 14 ''Expecting value'') # [dune_file])) =
     snd (run example_env ([oak_file] @ [dune_file])) \<and>
   count_list (eprint (json_error_message ''w/settings/biomes/a/bad.json'' 3 14 ''Expecting value'')) newline = 1"
proof -
  let ?g = "[(''Forest'', [(''oak'', \<lparr>enabled = Some True, biomeType = Some ''Forest'',
              biomeColors = Some [''00ff00'']\<rparr>)])]"
  have h: "load_files [] [oak_file] = ([], Inr ?g)"
    by (simp add: oak_file_def load_file_def splitext_def basename_def defaultdict_get_def Let_def)
  note t = json_error_reported_and_skipped [OF h, of "''w/settings/biomes/a/bad.json''" 3 14
      "''Expecting value''" "[dune_file]" example_env]
  have out: "fst (load_files ?g [dune_file]) = []"
    by (simp add: dune_file_def load_file_def Let_def split: prod.splits)
  have s3: "str_int 3 = ''3''" by code_simp
  have s14: "str_int 14 = ''14''" by code_simp
  have n1: "newline \<notin> set ''w/settings/biomes/a/bad.json''" by (simp add: newline_def)
  have n2: "newline \<notin> set ''Expecting value''" by (simp add: newline_def)
  have a: "fst (load_files [] ([oak_file] @ (''w/settings/biomes/a/bad.json'', JSONDecodeError 3 14 ''Expecting value'') # [dune_file])) =
     ''JSON error: w/settings/biomes/a/bad.json: line 3, column 14: Expecting value'' @ [newline]"
    using t out by (simp add: eprint_def json_error_message_def s3 s14)
  have b: "snd (load_files [] ([oak_file] @ (''w/settings/biomes/a/bad.json'', JSONDecodeError 3 14 ''Expecting value'') # [dune_file])) =
     snd (load_files [] ([oak_file] @ [dune_file]))"
    using t by simp
  have c: "snd (run example_env ([oak_file] @ (''w/settings/biomes/a/bad.json'', JSONDecodeError 3 14 ''Expecting value'') # [dune_file])) =
     snd (run example_env ([oak_file] @ [dune_file]))"
    using t by blast
  have d: "count_list (eprint (json_error_message ''w/settings/biomes/a/bad.json'' 3 14 ''Expecting value'')) newline = 1"
    using t n1 n2 by blast
  show ?thesis using h a b c d by blast
qed


lemma load_file_undecodable:
  "load_file d (fileName, UnicodeDecodeError) = ([], Inl lineno_error)"
  by (simp add: load_file_def lineno_error_def)

text \<open>
  C6. A file that fails to parse is to give one diagnostic line and be skipped, the run
  going on. The code does so for a syntax error, as shown above, but not for every parse
  failure: when the parser raises \<^verbatim>\<open>UnicodeDecodeError\<close>, the \<^verbatim>\<open>except\<close> clause catches
  it and its handler raises \<^verbatim>\<open>AttributeError\<close> on \<^verbatim>\<open>err.lineno\<close>. Nothing is written to
  the error stream for the file, the files after it are not loaded, and the run ends with
  that exception instead of an image.
\<close>

theorem undecodable_file_aborts:
  assumes "load_files [] pre = (out1, Inr d1)"
  shows "load_file d1 (fileName, UnicodeDecodeError) = ([], Inl lineno_error) \<and>
         load_files [] (pre @ (fileName, UnicodeDecodeError) # post) = (out1, Inl lineno_error) \<and>
         run e (pre @ (fileName, UnicodeDecodeError) # post) = (out1, Inl lineno_error)"
proof -
  have "load_files d1 ((fileName, UnicodeDecodeError) # post) = ([], Inl lineno_error)"
    by (simp add: load_file_undecodable)
  then have "load_files [] (pre @ (fileName, UnicodeDecodeError) # post) = (out1, Inl lineno_error)"
    using load_files_append_ok [OF assms, of "(fileName, UnicodeDecodeError) # post"] by simp
  then show ?thesis by (simp add: run_def load_file_undecodable)
qed

theorem undecodable_file_aborts_witness:
  "load_files [] [oak_file] =
     ([], Inr [(''Forest'', [(''oak'', \<lparr>enabled = Some True, biomeType = Some ''Forest'',
              biomeColors = Some [''00ff00'']\<rparr>)])]) \<and>
   run example_env ([oak_file] @ (''w/settings/biomes/a/garbled.json'', UnicodeDecodeError)
      # [dune_file]) = ([], Inl lineno_error) \<and>
   \<not> isl (snd (run example_env ([oak_file] @ [dune_file])))"
proof -
  from undecodable_file_aborts [OF load_oak, of "''w/settings/biomes/a/garbled.json''"
      "[dune_file]" example_env]
  have "run example_env ([oak_file] @ (''w/settings/biomes/a/garbled.json'', UnicodeDecodeError)
      # [dune_file]) = ([], Inl lineno_error)" by blast
  moreover have "\<not> isl (snd (run example_env ([oak_file] @ [dune_file])))" by code_simp
  ultimately show ?thesis using load_oak by blast
qed

text \<open>
  C1, as the code has it: a record without the key \<^verbatim>\<open>biomeType\<close> is not dropped. The
  lookup
  \<^verbatim>\<open>biome['biomeType']\<close> raises \<^verbatim>\<open>KeyError\<close>, which nothing catches (the lookup of
  \<^verbatim>\<open>enabled\<close> comes first and raises if that key is missing as well). The run ends
  there: the files after it are not loaded and no image is drawn or saved.
\<close>

theorem missing_biomeType_aborts:
  assumes "load_files [] pre = (out1, Inr d1)" and "biomeType b = None"
  shows "load_files [] (pre @ (fileName, Parsed b) # post) =
           (out1, Inl (KeyError (if enabled b = None then ''enabled'' else ''biomeType''))) \<and>
         run e (pre @ (fileName, Parsed b) # post) =
           (out1, Inl (KeyError (if enabled b = None then ''enabled'' else ''biomeType'')))"
proof -
  have "load_files d1 ((fileName, Parsed b) # post) =
      ([], Inl (KeyError (if enabled b = None then ''enabled'' else ''biomeType'')))"
    using assms(2) by (simp add: load_file_missing_key)
  then have "load_files [] (pre @ (fileName, Parsed b) # post) =
           (out1, Inl (KeyError (if enabled b = None then ''enabled'' else ''biomeType'')))"
    using load_files_append_ok [OF assms(1), of "(fileName, Parsed b) # post"] by simp
  then show ?thesis by (simp add: run_def)
qed

theorem missing_biomeType_counterexample:
  "run example_env
     [(''w/settings/biomes/a/oak.json'',
       Parsed \<lparr>enabled = Some True, biomeType = None, biomeColors = Some [''00ff00'']\<rparr>),
      dune_file] = ([], Inl (KeyError ''biomeType'')) \<and>
   \<not> isl (snd (run example_env [dune_file]))"
proof -
  have "run example_env
     [(''w/settings/biomes/a/oak.json'',
       Parsed \<lparr>enabled = Some True, biomeType = None, biomeColors = Some [''00ff00'']\<rparr>),
      dune_file] = ([], Inl (KeyError ''biomeType''))"
    by (simp add: run_def load_file_def Let_def)
  moreover have "\<not> isl (snd (run example_env [dune_file]))"
    by code_simp
  ultimately show ?thesis by blast
qed

theorem missing_biomeType_aborts_witness:
  "load_files [] [oak_file] =
     ([], Inr [(''Forest'', [(''oak'', \<lparr>enabled = Some True, biomeType = Some ''Forest'',
              biomeColors = Some [''00ff00'']\<rparr>)])]) \<and>
   biomeType \<lparr>enabled = Some True, biomeType = None, biomeColors = Some [''00ee00'']\<rparr> = None \<and>
   run example_env ([oak_file] @ (''w/settings/biomes/b/birch.json'',
       Parsed \<lparr>enabled = Some True, biomeType = None, biomeColors = Some [''00ee00'']\<rparr>) # [dune_file])
     = ([], Inl (KeyError ''biomeType''))"
proof -
  let ?g = "[(''Forest'', [(''oak'', \<lparr>enabled = Some True, biomeType = Some ''Forest'',
              biomeColors = Some [''00ff00'']\<rparr>)])]"
  let ?b = "\<lparr>enabled = Some True, biomeType = None, biomeColors = Some [''00ee00'']\<rparr>"
  have h: "load_files [] [oak_file] = ([], Inr ?g)" by (rule load_oak)
  have n: "biomeType ?b = None" by simp
  from missing_biomeType_aborts [OF h n, of "''w/settings/biomes/b/birch.json''" "[dune_file]" example_env]
  have "run example_env ([oak_file] @ (''w/settings/biomes/b/birch.json'', Parsed ?b) # [dune_file])
     = ([], Inl (KeyError ''biomeType''))" by simp
  then show ?thesis using h n by blast
qed

text \<open>
  C2, as the code has it: when no biome type has a patch, \<^verbatim>\<open>biomePatches\<close> is empty and the
  program does evaluate \<^verbatim>\<open>max\<close> over an empty sequence. The \<^verbatim>\<open>ValueError\<close> this
  raises ends the run; the program prints no diagnostic of its own, and it does not reach
  the drawing or \<^verbatim>\<open>img.save\<close>.
\<close>

theorem empty_palette_raises_in_max:
  assumes "load_files [] files = (out, Inr g)" and "extractPatches g = Inr []"
  shows "planLayout e [] = Inl (ValueError ''max() arg is an empty sequence'') \<and>
         run e files = (out, Inl (ValueError ''max() arg is an empty sequence''))"
  using assms by (simp add: run_def planLayout_def py_max_def values_of_def)

theorem empty_palette_counterexample:
  "run example_env [] = ([], Inl (ValueError ''max() arg is an empty sequence''))"
  by (simp add: run_def extractPatches_def sorted_keys_def keys_def planLayout_def py_max_def values_of_def)

theorem empty_palette_raises_in_max_witness:
  "load_files [] [void_file] =
     ([], Inr [(''Void'', [(''void'', \<lparr>enabled = Some True, biomeType = Some ''Void'',
                                      biomeColors = Some []\<rparr>)])]) \<and>
   extractPatches [(''Void'', [(''void'', \<lparr>enabled = Some True, biomeType = Some ''Void'',
                                      biomeColors = Some []\<rparr>)])] = Inr [] \<and>
   run example_env [void_file] = ([], Inl (ValueError ''max() arg is an empty sequence''))"
proof -
  let ?g = "[(''Void'', [(''void'', \<lparr>enabled = Some True, biomeType = Some ''Void'',
                                      biomeColors = Some []\<rparr>)])]"
  have h: "load_files [] [void_file] = ([], Inr ?g)" by code_simp
  have x: "extractPatches ?g = Inr []" by code_simp
  from empty_palette_raises_in_max [OF h x, of example_env]
  have "run example_env [void_file] = ([], Inl (ValueError ''max() arg is an empty sequence''))"
    by blast
  then show ?thesis using h x by blast
qed

subsection \<open>The value of enabled\<close>

lemma map_val_update:
  "map (\<lambda>(k, v). (k, f v)) (AList.update k0 v0 al) =
   AList.update k0 (f v0) (map (\<lambda>(k, v). (k, f v)) al)"
  by (induction al) auto

lemma map_of_map_val:
  "map_of (map (\<lambda>(k, v). (k, f v)) al) k = map_option f (map_of al k)"
  by (induction al) auto

lemma keys_map_val: "keys (map (\<lambda>(k, v). (k, f v)) al) = keys al"
  by (induction al) (auto simp: keys_def)

lemma defaultdict_get_forget:
  "defaultdict_get [] (forget_enabled_grouping d) t =
   forget_enabled_biomes (defaultdict_get [] d t)"
  by (simp add: defaultdict_get_def forget_enabled_grouping_def map_of_map_val
      forget_enabled_biomes_def split: option.splits)

lemma load_file_forget:
  "load_file (forget_enabled_grouping d) (forget_enabled f) =
   forget_enabled_loaded (load_file d f)"
proof (cases f)
  case (Pair fileName parsed)
  show ?thesis
  proof (cases parsed)
    case (JSONDecodeError lineno colno msg)
    with Pair show ?thesis by (simp add: load_file_def forget_enabled_loaded_def)
  next
    case UnicodeDecodeError
    with Pair show ?thesis by (simp add: load_file_def forget_enabled_loaded_def)
  next
    case (Parsed b)
    have upd: "\<And>t name. forget_enabled_grouping
        (AList.update t (AList.update name b (defaultdict_get [] d t)) d) =
      AList.update t (AList.update name (forget_enabled_biome b)
         (defaultdict_get [] (forget_enabled_grouping d) t)) (forget_enabled_grouping d)"
      by (simp add: forget_enabled_grouping_def [of "AList.update _ _ _"] map_val_update
          forget_enabled_biomes_def [of "AList.update _ _ _"] defaultdict_get_forget)
         (simp add: forget_enabled_grouping_def forget_enabled_biomes_def)
    show ?thesis
      using Pair Parsed
      by (auto simp: load_file_def forget_enabled_loaded_def Let_def upd
          forget_enabled_biome_def split: option.splits)
  qed
qed

lemma load_files_forget:
  "load_files (forget_enabled_grouping d) (map forget_enabled fs) =
   forget_enabled_loaded (load_files d fs)"
proof (induction fs arbitrary: d)
  case Nil
  show ?case by (simp add: forget_enabled_loaded_def)
next
  case (Cons f fs)
  obtain out r where lf: "load_file d f = (out, r)" by (cases "load_file d f")
  show ?case
  proof (cases r)
    case (Inl e)
    with lf show ?thesis
      using load_file_forget [of d f] by (simp add: forget_enabled_loaded_def)
  next
    case (Inr d')
    obtain out' r' where lfs: "load_files d' fs = (out', r')" by (cases "load_files d' fs")
    have "load_file (forget_enabled_grouping d) (forget_enabled f) =
          (out, Inr (forget_enabled_grouping d'))"
      using load_file_forget [of d f] lf Inr by (simp add: forget_enabled_loaded_def)
    moreover have "load_files (forget_enabled_grouping d') (map forget_enabled fs) =
          (out', map_sum id forget_enabled_grouping r')"
      using Cons.IH [of d'] lfs by (simp add: forget_enabled_loaded_def)
    ultimately show ?thesis using lf Inr lfs by (simp add: forget_enabled_loaded_def)
  qed
qed

lemma extract_names_forget:
  "extract_names bp t (forget_enabled_biomes biomes) names = extract_names bp t biomes names"
  by (induction names arbitrary: bp)
     (auto simp: forget_enabled_biomes_def map_of_map_val forget_enabled_biome_def
        split: option.splits)

lemma sorted_keys_forget_biomes: "sorted_keys (forget_enabled_biomes biomes) = sorted_keys biomes"
  by (simp add: sorted_keys_def forget_enabled_biomes_def keys_map_val)

lemma sorted_keys_forget_grouping: "sorted_keys (forget_enabled_grouping g) = sorted_keys g"
  by (simp add: sorted_keys_def forget_enabled_grouping_def keys_map_val)

lemma extract_types_forget:
  "extract_types bp (forget_enabled_grouping g) ts = extract_types bp g ts"
  by (induction ts arbitrary: bp)
     (auto simp: Let_def defaultdict_get_forget extract_names_forget sorted_keys_forget_biomes
        split: sum.splits)

lemma extractPatches_forget: "extractPatches (forget_enabled_grouping g) = extractPatches g"
  by (simp add: extractPatches_def sorted_keys_forget_grouping extract_types_forget)

lemma run_forget: "run e (map forget_enabled files) = run e files"
proof -
  have "load_files [] (map forget_enabled files) = forget_enabled_loaded (load_files [] files)"
    using load_files_forget [of "[]" files] by (simp add: forget_enabled_grouping_def)
  then show ?thesis
    by (cases "load_files [] files")
       (auto simp: run_def forget_enabled_loaded_def extractPatches_forget split: sum.splits)
qed


text \<open>
  C10. The value of \<^verbatim>\<open>enabled\<close> has no effect. Two inputs that differ only in the values
  of \<^verbatim>\<open>enabled\<close> give the same run: the same text on the error stream and the same
  exception or the same image, hence the same layout. What the loader returns is the same
  up to the values of \<^verbatim>\<open>enabled\<close> stored in the grouped records, and the extractor
  gives the same patch lists. A record without the key \<^verbatim>\<open>enabled\<close> is not skipped: the
  lookup raises \<^verbatim>\<open>KeyError\<close> and the run ends.
\<close>

theorem enabled_value_has_no_effect:
  assumes "map forget_enabled files = map forget_enabled files'"
  shows "run e files = run e files' \<and>
         forget_enabled_loaded (load_files [] files) = forget_enabled_loaded (load_files [] files') \<and>
         (\<forall>g g'. snd (load_files [] files) = Inr g \<and> snd (load_files [] files') = Inr g' \<longrightarrow>
            extractPatches g = extractPatches g') \<and>
         (\<forall>pre out1 d1 fileName b post.
            load_files [] pre = (out1, Inr d1) \<and> enabled b = None \<longrightarrow>
            run e (pre @ (fileName, Parsed b) # post) = (out1, Inl (KeyError ''enabled'')))"
proof -
  have r: "run e files = run e files'"
    using run_forget [of e files] run_forget [of e files'] assms by simp
  have l: "forget_enabled_loaded (load_files [] files) = forget_enabled_loaded (load_files [] files')"
    using load_files_forget [of "[]" files] load_files_forget [of "[]" files'] assms by simp
  have x: "extractPatches g = extractPatches g'"
    if "snd (load_files [] files) = Inr g" "snd (load_files [] files') = Inr g'" for g g'
  proof -
    have "forget_enabled_grouping g = forget_enabled_grouping g'"
      using l that by (simp add: forget_enabled_loaded_def)
    then show ?thesis using extractPatches_forget [of g] extractPatches_forget [of g'] by simp
  qed
  have k: "run e (pre @ (fileName, Parsed b) # post) = (out1, Inl (KeyError ''enabled''))"
    if "load_files [] pre = (out1, Inr d1)" "enabled b = None" for pre out1 d1 fileName b post
  proof -
    have "load_files d1 ((fileName, Parsed b) # post) = ([], Inl (KeyError ''enabled''))"
      using that(2) by (simp add: load_file_missing_key)
    then have "load_files [] (pre @ (fileName, Parsed b) # post) = (out1, Inl (KeyError ''enabled''))"
      using load_files_append_ok [OF that(1), of "(fileName, Parsed b) # post"] by simp
    then show ?thesis by (simp add: run_def)
  qed
  show ?thesis using r l x k by blast
qed

theorem enabled_value_has_no_effect_witness:
  "map forget_enabled example_files = map forget_enabled flipped_files \<and>
   example_files \<noteq> flipped_files \<and>
   run example_env example_files = run example_env flipped_files \<and>
   load_files [] [oak_file] =
     ([], Inr [(''Forest'', [(''oak'', \<lparr>enabled = Some True, biomeType = Some ''Forest'',
              biomeColors = Some [''00ff00'']\<rparr>)])]) \<and>
   enabled \<lparr>enabled = None, biomeType = Some ''Forest'', biomeColors = Some [''00ee00'']\<rparr> = None \<and>
   run example_env ([oak_file] @ (''w/settings/biomes/b/birch.json'',
       Parsed \<lparr>enabled = None, biomeType = Some ''Forest'', biomeColors = Some [''00ee00'']\<rparr>)
       # [dune_file]) = ([], Inl (KeyError ''enabled''))"
proof -
  let ?b = "\<lparr>enabled = None, biomeType = Some ''Forest'', biomeColors = Some [''00ee00'']\<rparr>"
  have h: "map forget_enabled example_files = map forget_enabled flipped_files"
    by (simp add: example_files_def flipped_files_def oak_file_def dune_file_def
        forget_enabled_biome_def)
  have n: "example_files \<noteq> flipped_files"
    by (simp add: example_files_def flipped_files_def oak_file_def)
  note t = enabled_value_has_no_effect [OF h, of example_env]
  from t have r: "run example_env example_files = run example_env flipped_files" by blast
  have m: "enabled ?b = None" by simp
  from t load_oak m
  have k: "run example_env ([oak_file] @ (''w/settings/biomes/b/birch.json'', Parsed ?b)
       # [dune_file]) = ([], Inl (KeyError ''enabled''))"
    by blast
  show ?thesis using h n r load_oak m k by blast
qed

subsection \<open>The extractor: patch lists\<close>

lemma get_append_patch:
  "defaultdict_get [] (append_patch bp t p) t' =
     (if t' = t then defaultdict_get [] bp t @ [p] else defaultdict_get [] bp t')"
  by (simp add: append_patch_def defaultdict_get_def update_conv')

lemma keys_append_patch:
  "keys (append_patch bp t p) = (if t \<in> set (keys bp) then keys bp else keys bp @ [t])"
  by (simp add: append_patch_def keys_def update_keys)

lemma get_extract_colors:
  "defaultdict_get [] (extract_colors bp t name cs) t' =
     (if t' = t
      then defaultdict_get [] bp t @ map (\<lambda>c. \<lparr>biomeName = name, biomeColor = colorCode c\<rparr>) cs
      else defaultdict_get [] bp t')"
  by (induction cs arbitrary: bp) (simp_all add: get_append_patch)

lemma keys_extract_colors:
  "keys (extract_colors bp t name cs) =
     (if cs = [] \<or> t \<in> set (keys bp) then keys bp else keys bp @ [t])"
  by (induction cs arbitrary: bp) (auto simp: keys_append_patch)

lemma extract_names_get:
  assumes "extract_names bp t biomes names = Inr bp'"
  shows "defaultdict_get [] bp' t' =
     (if t' = t then defaultdict_get [] bp t @ names_patch_list biomes names
      else defaultdict_get [] bp t')"
  using assms
proof (induction names arbitrary: bp)
  case Nil
  then show ?case by (simp add: names_patch_list_def)
next
  case (Cons name names)
  from Cons.prems obtain b cs where b: "map_of biomes name = Some b" "biomeColors b = Some cs"
    and rest: "extract_names (extract_colors bp t name cs) t biomes names = Inr bp'"
    by (auto split: option.splits)
  have np: "names_patch_list biomes (name # names) =
      map (\<lambda>c. \<lparr>biomeName = name, biomeColor = colorCode c\<rparr>) cs @ names_patch_list biomes names"
    using b by (simp add: names_patch_list_def biome_patch_list_def)
  show ?case using Cons.IH [OF rest] by (simp add: np get_extract_colors)
qed

lemma extract_names_keys:
  assumes "extract_names bp t biomes names = Inr bp'"
  shows "keys bp' =
     (if names_patch_list biomes names = [] \<or> t \<in> set (keys bp) then keys bp
      else keys bp @ [t])"
  using assms
proof (induction names arbitrary: bp)
  case Nil
  then show ?case by (simp add: names_patch_list_def)
next
  case (Cons name names)
  from Cons.prems obtain b cs where b: "map_of biomes name = Some b" "biomeColors b = Some cs"
    and rest: "extract_names (extract_colors bp t name cs) t biomes names = Inr bp'"
    by (auto split: option.splits)
  have np: "names_patch_list biomes (name # names) =
      map (\<lambda>c. \<lparr>biomeName = name, biomeColor = colorCode c\<rparr>) cs @ names_patch_list biomes names"
    using b by (simp add: names_patch_list_def biome_patch_list_def)
  show ?case using Cons.IH [OF rest] by (auto simp: np keys_extract_colors)
qed

lemma extract_names_colors:
  assumes "extract_names bp t biomes names = Inr bp'" and "name \<in> set names"
  shows "\<exists>b cs. map_of biomes name = Some b \<and> biomeColors b = Some cs"
  using assms by (induction names arbitrary: bp) (auto split: option.splits)

lemma get_not_key: "t \<notin> set (keys d) \<Longrightarrow> defaultdict_get dflt d t = dflt"
  by (simp add: defaultdict_get_def keys_def map_of_eq_None_iff [THEN iffD2] split: option.splits)

lemma extract_types_get_keys:
  assumes "extract_types bp g ts = Inr bp'" and "distinct ts" and "set ts \<inter> set (keys bp) = {}"
  shows "defaultdict_get [] bp' t' =
           (if t' \<in> set ts then type_patch_list (defaultdict_get [] g t')
            else defaultdict_get [] bp t') \<and>
         keys bp' = keys bp @ filter (\<lambda>t. type_patch_list (defaultdict_get [] g t) \<noteq> []) ts"
  using assms
proof (induction ts arbitrary: bp)
  case Nil
  then show ?case by simp
next
  case (Cons t ts)
  let ?biomes = "defaultdict_get [] g t"
  from Cons.prems(1) obtain bp1 where
    one: "extract_names bp t ?biomes (sorted_keys ?biomes) = Inr bp1"
    and rest: "extract_types bp1 g ts = Inr bp'"
    by (auto simp: Let_def split: sum.splits)
  have tk: "t \<notin> set (keys bp)" "t \<notin> set ts" "distinct ts" using Cons.prems by auto
  have g1: "defaultdict_get [] bp1 t' =
     (if t' = t then type_patch_list ?biomes else defaultdict_get [] bp t')" for t'
    using extract_names_get [OF one, of t'] tk(1)
    by (simp add: type_patch_list_def sorted_keys_def get_not_key)
  have k1: "keys bp1 = (if type_patch_list ?biomes = [] then keys bp else keys bp @ [t])"
    using extract_names_keys [OF one] tk(1) by (simp add: type_patch_list_def sorted_keys_def)
  have disj: "set ts \<inter> set (keys bp1) = {}" using Cons.prems(3) tk k1 by auto
  from Cons.IH [OF rest tk(3) disj] show ?case using tk by (auto simp: g1 k1)
qed

lemma extract_types_colors:
  assumes "extract_types bp g ts = Inr bp'" and "t \<in> set ts"
    and "name \<in> set (keys (defaultdict_get [] g t))"
  shows "\<exists>b cs. map_of (defaultdict_get [] g t) name = Some b \<and> biomeColors b = Some cs"
  using assms
proof (induction ts arbitrary: bp)
  case Nil
  then show ?case by simp
next
  case (Cons t0 ts)
  let ?biomes = "defaultdict_get [] g t0"
  from Cons.prems(1) obtain bp1 where
    one: "extract_names bp t0 ?biomes (sorted_keys ?biomes) = Inr bp1"
    and rest: "extract_types bp1 g ts = Inr bp'"
    by (auto simp: Let_def split: sum.splits)
  show ?case
  proof (cases "t = t0")
    case True
    then have "name \<in> set (sorted_keys ?biomes)" using Cons.prems(3) by (simp add: sorted_keys_def)
    from extract_names_colors [OF one this] True show ?thesis by simp
  next
    case False
    then have "t \<in> set ts" using Cons.prems(2) by simp
    from Cons.IH [OF rest this Cons.prems(3)] show ?thesis .
  qed
qed

lemma set_update_subset: "set (AList.update k v al) \<subseteq> insert (k, v) (set al)"
  by (induction al) auto

lemma get_distinct:
  assumes "list_all (\<lambda>(t, biomes). distinct (keys biomes)) g"
  shows "distinct (keys (defaultdict_get [] g t))"
proof (cases "map_of g t")
  case None
  then show ?thesis by (simp add: defaultdict_get_def keys_def)
next
  case (Some biomes)
  then have "(t, biomes) \<in> set g" by (rule map_of_SomeD)
  then have "distinct (keys biomes)" using assms by (auto simp: list_all_iff)
  then show ?thesis using Some by (simp add: defaultdict_get_def)
qed

lemma load_file_ok:
  assumes "dict_ok d" and "load_file d f = (out, Inr d')"
  shows "dict_ok d'"
proof (cases f)
  case (Pair fileName parsed)
  show ?thesis
  proof (cases parsed)
    case (JSONDecodeError lineno colno msg)
    with Pair assms show ?thesis by (simp add: load_file_def)
  next
    case UnicodeDecodeError
    with Pair assms show ?thesis by (simp add: load_file_def)
  next
    case (Parsed b)
    with Pair assms(2) obtain t where
      d': "d' = AList.update t
             (AList.update (fst (splitext (basename fileName))) b (defaultdict_get [] d t)) d"
      by (auto simp: load_file_def Let_def split: option.splits)
    let ?inner = "AList.update (fst (splitext (basename fileName))) b (defaultdict_get [] d t)"
    have "distinct (keys (defaultdict_get [] d t))"
      using assms(1) by (simp add: dict_ok_def get_distinct)
    then have inner: "distinct (keys ?inner)" by (simp add: keys_def distinct_update)
    have "distinct (keys d')" using assms(1) by (simp add: d' dict_ok_def keys_def distinct_update)
    moreover have "list_all (\<lambda>(t, biomes). distinct (keys biomes)) d'"
      using assms(1) inner set_update_subset [of t ?inner d]
      by (auto simp: d' dict_ok_def list_all_iff)
    ultimately show ?thesis by (simp add: dict_ok_def)
  qed
qed

lemma load_files_ok:
  assumes "dict_ok d" and "load_files d fs = (out, Inr d')"
  shows "dict_ok d'"
  using assms
proof (induction fs arbitrary: d out)
  case Nil
  then show ?case by simp
next
  case (Cons f fs)
  from Cons.prems(2) obtain out1 d1 out2 where
    one: "load_file d f = (out1, Inr d1)" and rest: "load_files d1 fs = (out2, Inr d')"
    by (auto split: prod.splits sum.splits)
  from Cons.IH [OF load_file_ok [OF Cons.prems(1) one] rest] show ?case .
qed

lemma loaded_ok: "load_files [] files = (out, Inr g) \<Longrightarrow> dict_ok g"
  by (rule load_files_ok [of "[]"]) (simp_all add: dict_ok_def keys_def)

lemma extractPatches_get_keys:
  assumes "distinct (keys g)" and "extractPatches g = Inr bp"
  shows "defaultdict_get [] bp t =
           (if t \<in> set (keys g) then type_patch_list (defaultdict_get [] g t) else [])"
    and "keys bp = filter (\<lambda>t. type_patch_list (defaultdict_get [] g t) \<noteq> []) (sort (keys g))"
proof -
  have x: "extract_types [] g (sort (keys g)) = Inr bp"
    using assms(2) by (simp add: extractPatches_def sorted_keys_def)
  have d: "distinct (sort (keys g))" using assms(1) by simp
  have e: "set (sort (keys g)) \<inter> set (keys ([] :: biome_patches)) = {}" by (simp add: keys_def)
  note c = extract_types_get_keys [OF x d e]
  show "defaultdict_get [] bp t =
           (if t \<in> set (keys g) then type_patch_list (defaultdict_get [] g t) else [])"
    using c [of t] by (simp add: defaultdict_get_def)
  show "keys bp = filter (\<lambda>t. type_patch_list (defaultdict_get [] g t) \<noteq> []) (sort (keys g))"
    using c [of t] by (simp add: keys_def)
qed

lemma map_of_keys_get:
  "map_of d t = (if t \<in> set (keys d) then Some (defaultdict_get dflt d t) else None)"
  by (cases "map_of d t")
     (auto simp: keys_def defaultdict_get_def map_of_eq_None_iff dest: map_of_SomeD
        intro: rev_image_eqI)

lemma extractPatches_lookup:
  assumes "distinct (keys g)" and "extractPatches g = Inr bp"
  shows "map_of bp t =
     (if t \<in> set (keys g) \<and> type_patch_list (defaultdict_get [] g t) \<noteq> []
      then Some (type_patch_list (defaultdict_get [] g t)) else None)"
  using extractPatches_get_keys [OF assms] by (auto simp: map_of_keys_get [of bp t "[]"])

lemma extractPatches_distinct:
  assumes "distinct (keys g)" and "extractPatches g = Inr bp"
  shows "distinct (keys bp)"
  using extractPatches_get_keys(2) [OF assms] assms(1) by simp

lemma extractPatches_nonempty:
  assumes "distinct (keys g)" and "extractPatches g = Inr bp" and "(t, ps) \<in> set bp"
  shows "ps \<noteq> [] \<and> t \<in> set (keys g) \<and> ps = type_patch_list (defaultdict_get [] g t)"
proof -
  have "distinct (map fst bp)" using extractPatches_distinct [OF assms(1,2)] by (simp add: keys_def)
  then have "map_of bp t = Some ps" using assms(3) by simp
  then show ?thesis using extractPatches_lookup [OF assms(1,2), of t] by (auto split: if_splits)
qed

lemma extractPatches_colors:
  assumes "extractPatches g = Inr bp" and "t \<in> set (keys g)"
    and "name \<in> set (keys (defaultdict_get [] g t))"
  shows "\<exists>b cs. map_of (defaultdict_get [] g t) name = Some b \<and> biomeColors b = Some cs"
  using assms extract_types_colors [of "[]" g "sort (keys g)" bp t name]
  by (simp add: extractPatches_def sorted_keys_def)


lemma matches_colorCode:
  "matches_hex_color (colorCode c) \<longleftrightarrow>
     matches_hex_color c \<or> (length c = 6 \<and> list_all is_hex_digit c)"
proof (cases c)
  case Nil
  then show ?thesis by (simp add: colorCode_def matches_hex_color_def)
next
  case (Cons h t)
  have nh: "\<not> is_hex_digit CHR ''#''" by (simp add: is_hex_digit_def)
  show ?thesis
  proof (cases "h = CHR ''#''")
    case True
    with Cons nh show ?thesis by (auto simp: colorCode_def matches_hex_color_def)
  next
    case False
    with Cons show ?thesis by (auto simp: colorCode_def matches_hex_color_def)
  qed
qed

lemma colorCode_starts: "take 1 (colorCode c) = ''#''"
  by (cases c) (auto simp: colorCode_def)

lemma in_type_patch_list:
  assumes "p \<in> set (type_patch_list biomes)"
  shows "\<exists>b cs c. map_of biomes (biomeName p) = Some b \<and> biomeColors b = Some cs \<and>
           c \<in> set cs \<and> biomeColor p = colorCode c"
proof -
  from assms obtain name where
    p: "p \<in> set (case map_of biomes name of None \<Rightarrow> [] | Some b \<Rightarrow> biome_patch_list name b)"
    by (auto simp: type_patch_list_def names_patch_list_def)
  then obtain b where b: "map_of biomes name = Some b" "p \<in> set (biome_patch_list name b)"
    by (cases "map_of biomes name") auto
  then obtain cs where cs: "biomeColors b = Some cs"
    "p \<in> set (map (\<lambda>c. \<lparr>biomeName = name, biomeColor = colorCode c\<rparr>) cs)"
    by (cases "biomeColors b") (auto simp: biome_patch_list_def)
  then obtain c where c: "c \<in> set cs" "p = \<lparr>biomeName = name, biomeColor = colorCode c\<rparr>"
    by auto
  from c(2) have "biomeName p = name" "biomeColor p = colorCode c" by simp_all
  with b(1) cs(1) c(1) show ?thesis by blast
qed


text \<open>
  C9, as the code has it: the extractor does not validate colour codes. Every patch's colour code
  is \<^verbatim>\<open>colorCode\<close> of a colour string of its biome's \<^verbatim>\<open>biomeColors\<close>; it starts with
  \<^verbatim>\<open>#\<close>, and it matches \<^verbatim>\<open>#[0-9A-Fa-f]{6}\<close> exactly when the source string is six
  hexadecimal digits, with or without a \<^verbatim>\<open>#\<close> in front.
\<close>

theorem patch_color_is_normalized_source:
  assumes "load_files [] files = (out, Inr g)" and "extractPatches g = Inr bp"
    and "(t, ps) \<in> set bp" and "p \<in> set ps"
  shows "\<exists>biomes b cs c.
           map_of g t = Some biomes \<and> map_of biomes (biomeName p) = Some b \<and>
           biomeColors b = Some cs \<and> c \<in> set cs \<and> biomeColor p = colorCode c \<and>
           take 1 (biomeColor p) = ''#'' \<and>
           (matches_hex_color (biomeColor p) \<longleftrightarrow>
              matches_hex_color c \<or> (length c = 6 \<and> list_all is_hex_digit c))"
proof -
  have dg: "distinct (keys g)" using loaded_ok [OF assms(1)] by (simp add: dict_ok_def)
  from extractPatches_nonempty [OF dg assms(2,3)]
  have tk: "t \<in> set (keys g)" and ps: "ps = type_patch_list (defaultdict_get [] g t)" by auto
  from tk have mg: "map_of g t = Some (defaultdict_get [] g t)"
    by (simp add: map_of_keys_get [of g t "[]"])
  from assms(4) ps in_type_patch_list [of p "defaultdict_get [] g t"]
  obtain b cs c where "map_of (defaultdict_get [] g t) (biomeName p) = Some b"
    "biomeColors b = Some cs" "c \<in> set cs" "biomeColor p = colorCode c" by blast
  then show ?thesis using mg matches_colorCode [of c] colorCode_starts [of c] by auto
qed

theorem patch_color_counterexample:
  "extractPatches [(''Forest'', [(''oak'', \<lparr>enabled = Some True, biomeType = Some ''Forest'',
       biomeColors = Some [''zzz'']\<rparr>)])] =
     Inr [(''Forest'', [\<lparr>biomeName = ''oak'', biomeColor = ''#zzz''\<rparr>])] \<and>
   colorCode ''zzz'' = ''#zzz'' \<and> \<not> matches_hex_color ''#zzz''"
  by (simp add: extractPatches_def sorted_keys_def keys_def defaultdict_get_def append_patch_def
      colorCode_def matches_hex_color_def)

theorem patch_color_is_normalized_source_witness:
  "load_files [] example_files =
     (''JSON error: w/settings/biomes/a/bad.json: line 3, column 14: Expecting value''
        @ [newline], Inr example_grouping) \<and>
   extractPatches example_grouping = Inr example_patches \<and>
   (''Forest'', [\<lparr>biomeName = ''birch'', biomeColor = ''#00ee00''\<rparr>,
                \<lparr>biomeName = ''oak'', biomeColor = ''#00ff00''\<rparr>]) \<in> set example_patches \<and>
   (\<exists>biomes b cs c.
      map_of example_grouping ''Forest'' = Some biomes \<and> map_of biomes ''oak'' = Some b \<and>
      biomeColors b = Some cs \<and> c \<in> set cs \<and> ''#00ff00'' = colorCode c \<and>
      (matches_hex_color ''#00ff00'' \<longleftrightarrow>
         matches_hex_color c \<or> (length c = 6 \<and> list_all is_hex_digit c)))"
proof -
  let ?ps = "[\<lparr>biomeName = ''birch'', biomeColor = ''#00ee00''\<rparr>,
              \<lparr>biomeName = ''oak'', biomeColor = ''#00ff00''\<rparr>]"
  let ?p = "\<lparr>biomeName = ''oak'', biomeColor = ''#00ff00''\<rparr>"
  have i: "(''Forest'', ?ps) \<in> set example_patches" by (simp add: example_patches_def)
  have j: "?p \<in> set ?ps" by simp
  from patch_color_is_normalized_source [OF example_loaded example_extracted i j]
  have "\<exists>biomes b cs c.
      map_of example_grouping ''Forest'' = Some biomes \<and> map_of biomes ''oak'' = Some b \<and>
      biomeColors b = Some cs \<and> c \<in> set cs \<and> ''#00ff00'' = colorCode c \<and>
      (matches_hex_color ''#00ff00'' \<longleftrightarrow>
         matches_hex_color c \<or> (length c = 6 \<and> list_all is_hex_digit c))"
    by simp
  then show ?thesis using example_loaded example_extracted i by blast
qed

subsection \<open>The layout: rows, columns and canvas\<close>

lemma py_max_Max: "xs \<noteq> [] \<Longrightarrow> py_max xs = Inr (Max (set xs))"
proof (cases xs)
  case Nil
  assume "xs \<noteq> []"
  with Nil show ?thesis by simp
next
  case (Cons x ys)
  have "fold max ys x = Max (set (x # ys))" by (rule Max.set_eq_fold [symmetric])
  with Cons show ?thesis by (simp add: py_max_def)
qed

lemma ceil_div:
  fixes w n :: int
  assumes "0 < w"
  shows "(w - 1 + n) div w = \<lceil>rat_of_int n / rat_of_int w\<rceil>"
proof -
  define q where "q = (w - 1 + n) div w"
  define m where "m = (w - 1 + n) mod w"
  have e: "w - 1 + n = w * q + m" by (simp add: q_def m_def)
  have m: "0 \<le> m" "m < w" using assms by (simp_all add: m_def)
  have up: "n \<le> q * w" using e m by (simp add: algebra_simps)
  have lo: "(q - 1) * w < n" using e m by (simp add: algebra_simps)
  have w: "0 < rat_of_int w" using assms by simp
  have "rat_of_int n \<le> rat_of_int q * rat_of_int w"
    using up by (metis of_int_le_iff of_int_mult)
  then have a: "rat_of_int n / rat_of_int w \<le> rat_of_int q"
    using w by (simp add: pos_divide_le_eq)
  have "rat_of_int (q - 1) * rat_of_int w < rat_of_int n"
    using lo by (metis of_int_less_iff of_int_mult)
  then have b: "rat_of_int q - 1 < rat_of_int n / rat_of_int w"
    using w by (simp add: pos_less_divide_eq)
  have "\<lceil>rat_of_int n / rat_of_int w\<rceil> = q"
    using a b by (intro ceiling_unique) simp_all
  then show ?thesis by (simp add: q_def)
qed

lemma rows_by_columns:
  fixes maxP wrapC n :: int
  assumes "0 \<le> n" "n \<le> maxP" "0 < wrapC"
  shows "(wrapC - 1 + n) div wrapC = \<lceil>rat_of_int n / rat_of_int (min maxP wrapC)\<rceil>"
proof (cases "wrapC \<le> maxP")
  case True
  then show ?thesis using ceil_div [OF assms(3), of n] by (simp add: min_def)
next
  case False
  then have mn: "min maxP wrapC = maxP" by simp
  show ?thesis
  proof (cases "n = 0")
    case True
    then show ?thesis using assms(3) by simp
  next
    case False
    then have n: "1 \<le> n" using assms(1) by simp
    then have mp: "0 < maxP" using assms(2) by simp
    have l: "(wrapC - 1 + n) div wrapC = 1"
    proof -
      have "wrapC - 1 + n = wrapC * 1 + (n - 1)" by simp
      moreover have "0 \<le> n - 1" "n - 1 < wrapC" using n assms(2) \<open>\<not> wrapC \<le> maxP\<close> by simp_all
      ultimately show ?thesis by (metis div_pos_pos_trivial div_mult_self4 add.commute add_0 less_irrefl assms(3) mult.right_neutral)
    qed
    have "(maxP - 1 + n) div maxP = 1"
    proof -
      have "maxP - 1 + n = maxP * 1 + (n - 1)" by simp
      moreover have "0 \<le> n - 1" "n - 1 < maxP" using n assms(2) by simp_all
      ultimately show ?thesis by (metis div_pos_pos_trivial div_mult_self4 add.commute add_0 less_irrefl mp mult.right_neutral)
    qed
    then have "\<lceil>rat_of_int n / rat_of_int maxP\<rceil> = 1" using ceil_div [OF mp, of n] by simp
    with l mn show ?thesis by simp
  qed
qed

lemma wrap_rows_ok:
  assumes "wrapC \<noteq> 0"
  shows "wrap_rows wrapC bp (typeRows, rws) =
     Inr (fold (\<lambda>(t, ps). AList.update t ((wrapC - 1 + int (length ps)) div wrapC)) bp typeRows,
          rws + (\<Sum>(t, ps)\<leftarrow>bp. (wrapC - 1 + int (length ps)) div wrapC))"
  using assms by (induction bp arbitrary: typeRows rws) (auto simp: Let_def)

lemma map_of_fold_update:
  assumes "distinct (map fst bp)"
  shows "map_of (fold (\<lambda>(t, ps). AList.update t (f ps)) bp typeRows) t =
     (case map_of bp t of Some ps \<Rightarrow> Some (f ps) | None \<Rightarrow> map_of typeRows t)"
  using assms
proof (induction bp arbitrary: typeRows)
  case Nil
  then show ?case by simp
next
  case (Cons x bp)
  obtain t0 ps0 where x: "x = (t0, ps0)" by (cases x)
  have d: "distinct (map fst bp)" and n: "map_of bp t0 = None"
    using Cons.prems x by (simp_all add: map_of_eq_None_iff)
  show ?case
    using Cons.IH [OF d, of "AList.update t0 (f ps0) typeRows"] n
    by (auto simp: x update_conv' split: option.splits)
qed

lemma length_le_Max:
  assumes "(t, ps) \<in> set bp"
  shows "int (length ps) \<le> Max (set (map (\<lambda>(t, ps). int (length ps)) bp))"
proof -
  have "int (length ps) \<in> set (map (\<lambda>(t, ps). int (length ps)) bp)"
    using assms by force
  then show ?thesis by (intro Max_ge) simp_all
qed

lemma sum_list_cong_set:
  assumes "\<And>x. x \<in> set xs \<Longrightarrow> f x = g x"
  shows "sum_list (map f xs) = sum_list (map g xs)"
  using assms by (induction xs) auto


text \<open>
  C3. For every non-empty \<^verbatim>\<open>biomePatches\<close> that the extractor produces, planning
  succeeds; the total row count is the sum over the biome types of
  \<open>\<lceil>patchCount / columns\<rceil>\<close> with \<open>columns = min maxPatches wrapColumns\<close>, although the code
  divides by \<open>wrapColumns\<close>; each type's entry of \<^verbatim>\<open>biomeTypeRows\<close> is that ceiling; and
  the canvas is \<open>(1 + firstColumnWidth + patchWidth \<times> columns, 1 + patchHeight \<times> rows)\<close>.
  The floating-point cube root is a parameter, assumed to be at least 1 on arguments that
  are at least 1.
\<close>

theorem layout_rows_and_canvas:
  assumes "load_files [] files = (out, Inr g)" and "extractPatches g = Inr bp" and "bp \<noteq> []"
    and "\<forall>n\<ge>1. 1 \<le> ceil_cbrt e n"
  shows "\<exists>L. planLayout e bp = Inr L \<and>
           maxPatches L = Max (set (map (\<lambda>(t, ps). int (length ps)) bp)) \<and>
           wrapColumns L = 3 * ceil_cbrt e (maxPatches L) \<and>
           columns L = min (maxPatches L) (wrapColumns L) \<and>
           rows L = (\<Sum>(t, ps)\<leftarrow>bp. \<lceil>rat_of_int (int (length ps)) / rat_of_int (columns L)\<rceil>) \<and>
           rows L = (\<Sum>(t, ps)\<leftarrow>bp. (wrapColumns L - 1 + int (length ps)) div wrapColumns L) \<and>
           (\<forall>t. map_of (biomeTypeRows L) t =
                  map_option (\<lambda>ps. \<lceil>rat_of_int (int (length ps)) / rat_of_int (columns L)\<rceil>)
                    (map_of bp t)) \<and>
           distinct (keys bp) \<and>
           imageWidth L = 1 + firstColumnWidth L + patchWidth L * columns L \<and>
           imageHeight L = 1 + patchHeight L * rows L \<and>
           (\<forall>img. render e L bp = Inr img \<longrightarrow>
              img_size img = (1 + firstColumnWidth L + patchWidth L * columns L,
                              1 + patchHeight L * rows L))"
proof -
  define maxP where "maxP = Max (set (map (\<lambda>(t, ps). int (length ps)) bp))"
  define wrapC where "wrapC = 3 * ceil_cbrt e maxP"
  define cols where "cols = min maxP wrapC"
  define f where "f = (\<lambda>ps :: patch list. (wrapC - 1 + int (length ps)) div wrapC)"
  have dg: "distinct (keys g)" using loaded_ok [OF assms(1)] by (simp add: dict_ok_def)
  have db: "distinct (keys bp)" by (rule extractPatches_distinct [OF dg assms(2)])
  have ne: "ps \<noteq> []" if "(t, ps) \<in> set bp" for t ps
    using extractPatches_nonempty [OF dg assms(2) that] by blast
  obtain t0 ps0 where in0: "(t0, ps0) \<in> set bp" using assms(3) by (cases bp) auto
  have "1 \<le> int (length ps0)" using ne [OF in0] by (cases ps0) simp_all
  then have maxP1: "1 \<le> maxP" using length_le_Max [OF in0] by (simp add: maxP_def)
  then have "1 \<le> ceil_cbrt e maxP" using assms(4) by simp
  then have wrapC3: "3 \<le> wrapC" by (simp add: wrapC_def)
  have m: "py_max (map (\<lambda>patches. int (length patches)) (values_of bp)) = Inr maxP"
  proof -
    have "map (\<lambda>patches. int (length patches)) (values_of bp) =
          map (\<lambda>(t, ps). int (length ps)) bp"
      by (simp add: values_of_def case_prod_unfold)
    then show ?thesis using assms(3) by (simp add: py_max_Max maxP_def)
  qed
  have w: "wrap_rows wrapC bp ([], 0) =
      Inr (fold (\<lambda>(t, ps). AList.update t (f ps)) bp [], (\<Sum>(t, ps)\<leftarrow>bp. f ps))"
    using wrapC3 wrap_rows_ok [of wrapC bp "[]" 0] by (simp add: f_def)
  have k: "keys bp \<noteq> []" using assms(3) by (simp add: keys_def)
  have fc: "f ps = \<lceil>rat_of_int (int (length ps)) / rat_of_int cols\<rceil>"
    if "(t, ps) \<in> set bp" for t ps
    unfolding f_def cols_def
    using wrapC3 length_le_Max [OF that] by (intro rows_by_columns) (simp_all add: maxP_def)
  have sum: "(\<Sum>(t, ps)\<leftarrow>bp. f ps) =
      (\<Sum>(t, ps)\<leftarrow>bp. \<lceil>rat_of_int (int (length ps)) / rat_of_int cols\<rceil>)"
    by (rule sum_list_cong_set) (auto simp: fc)
  have tr: "map_of (fold (\<lambda>(t, ps). AList.update t (f ps)) bp []) t =
      map_option (\<lambda>ps. \<lceil>rat_of_int (int (length ps)) / rat_of_int cols\<rceil>) (map_of bp t)" for t
  proof (cases "map_of bp t")
    case None
    then show ?thesis using map_of_fold_update [of bp f "[]" t] db by (simp add: keys_def)
  next
    case (Some ps)
    then have "(t, ps) \<in> set bp" by (rule map_of_SomeD)
    then show ?thesis using map_of_fold_update [of bp f "[]" t] db Some by (simp add: keys_def fc)
  qed
  obtain L where L: "planLayout e bp = Inr L"
    and Lf: "maxPatches L = maxP" "wrapColumns L = wrapC" "columns L = cols"
      "rows L = (\<Sum>(t, ps)\<leftarrow>bp. f ps)"
      "biomeTypeRows L = fold (\<lambda>(t, ps). AList.update t (f ps)) bp []"
      "imageWidth L = 1 + firstColumnWidth L + patchWidth L * columns L"
      "imageHeight L = 1 + patchHeight L * rows L"
    using m w k
    by (simp add: planLayout_def Let_def py_max_Max wrapC_def [symmetric] cols_def [symmetric])
  have img: "img_size img = (1 + firstColumnWidth L + patchWidth L * columns L,
                              1 + patchHeight L * rows L)"
    if "render e L bp = Inr img" for img
    using that Lf(6,7) by (auto simp: render_def split: sum.splits)
  have c1: "maxPatches L = Max (set (map (\<lambda>(t, ps). int (length ps)) bp))"
    using Lf(1) by (simp only: maxP_def)
  have c2: "wrapColumns L = 3 * ceil_cbrt e (maxPatches L)"
    using Lf(1,2) by (simp only: wrapC_def)
  have c3: "columns L = min (maxPatches L) (wrapColumns L)"
    using Lf(1,2,3) by (simp only: cols_def)
  have c4: "rows L = (\<Sum>(t, ps)\<leftarrow>bp. \<lceil>rat_of_int (int (length ps)) / rat_of_int (columns L)\<rceil>)"
    using Lf(3,4) sum by (simp only:)
  have c5: "rows L = (\<Sum>(t, ps)\<leftarrow>bp. (wrapColumns L - 1 + int (length ps)) div wrapColumns L)"
    using Lf(2,4) by (simp only: f_def)
  have c6: "\<forall>t. map_of (biomeTypeRows L) t =
                  map_option (\<lambda>ps. \<lceil>rat_of_int (int (length ps)) / rat_of_int (columns L)\<rceil>)
                    (map_of bp t)"
    using tr Lf(3,5) by (simp only:) simp
  have c7: "\<forall>img. render e L bp = Inr img \<longrightarrow>
              img_size img = (1 + firstColumnWidth L + patchWidth L * columns L,
                              1 + patchHeight L * rows L)"
    using img by blast
  show ?thesis
    using L c1 c2 c3 c4 c5 c6 db Lf(6,7) c7 by blast
qed

theorem layout_rows_and_canvas_witness:
  "load_files [] example_files =
     (''JSON error: w/settings/biomes/a/bad.json: line 3, column 14: Expecting value''
        @ [newline], Inr example_grouping) \<and>
   extractPatches example_grouping = Inr example_patches \<and>
   example_patches \<noteq> [] \<and>
   planLayout example_env example_patches = Inr example_layout \<and>
   columns example_layout = min (maxPatches example_layout) (wrapColumns example_layout) \<and>
   rows example_layout =
     (\<Sum>(t, ps)\<leftarrow>example_patches.
        \<lceil>rat_of_int (int (length ps)) / rat_of_int (columns example_layout)\<rceil>) \<and>
   rows example_layout = 2 \<and>
   imageHeight example_layout = 1 + patchHeight example_layout * rows example_layout"
proof -
  have ne: "example_patches \<noteq> []" by (simp add: example_patches_def)
  have cb: "\<forall>n\<ge>1. 1 \<le> ceil_cbrt example_env n"
    by (simp add: example_env_def example_ceil_cbrt_pos)
  from layout_rows_and_canvas [OF example_loaded example_extracted ne cb]
  obtain L where L: "planLayout example_env example_patches = Inr L"
    and c: "columns L = min (maxPatches L) (wrapColumns L)"
    and r: "rows L = (\<Sum>(t, ps)\<leftarrow>example_patches.
        \<lceil>rat_of_int (int (length ps)) / rat_of_int (columns L)\<rceil>)"
    and h: "imageHeight L = 1 + patchHeight L * rows L"
    by blast
  from L have e: "L = example_layout" by (simp add: example_planned)
  have "rows example_layout = 2" by (simp add: example_layout_def)
  then show ?thesis
    using example_loaded example_extracted ne example_planned c r h unfolding e by blast
qed

lemma planLayout_columns:
  assumes "planLayout e bp = Inr L"
  shows "maxPatches L = Max (set (map (\<lambda>(t, ps). int (length ps)) bp))"
    and "wrapColumns L = 3 * ceil_cbrt e (maxPatches L)"
    and "columns L = min (maxPatches L) (wrapColumns L)"
proof -
  have m: "map (\<lambda>patches. int (length patches)) (values_of bp) =
          map (\<lambda>(t, ps). int (length ps)) bp"
    by (simp add: values_of_def case_prod_unfold)
  have ne: "bp \<noteq> []"
    using assms by (auto simp: planLayout_def py_max_def values_of_def)
  then have pm: "py_max (map (\<lambda>patches. int (length patches)) (values_of bp)) =
      Inr (Max (set (map (\<lambda>(t, ps). int (length ps)) bp)))"
    by (simp only: m) (simp add: py_max_Max)
  show "maxPatches L = Max (set (map (\<lambda>(t, ps). int (length ps)) bp))"
    using assms unfolding planLayout_def pm
    by (auto simp: Let_def split: sum.splits prod.splits)
  show "wrapColumns L = 3 * ceil_cbrt e (maxPatches L)"
    using assms unfolding planLayout_def pm
    by (auto simp: Let_def split: sum.splits prod.splits)
  show "columns L = min (maxPatches L) (wrapColumns L)"
    using assms unfolding planLayout_def pm
    by (auto simp: Let_def split: sum.splits prod.splits)
qed

lemma root3_1: "\<lceil>root 3 (real_of_int 1)\<rceil> = 1" by simp

lemma root3_8: "\<lceil>root 3 (real_of_int 8)\<rceil> = 2"
proof -
  have "root 3 ((2::real) ^ 3) = 2" by (rule real_root_power_cancel) simp_all
  then have "root 3 (8::real) = 2" by simp
  then show ?thesis by simp
qed

lemma root3_27: "\<lceil>root 3 (real_of_int 27)\<rceil> = 3"
proof -
  have "root 3 ((3::real) ^ 3) = 3" by (rule real_root_power_cancel) simp_all
  then have "root 3 (27::real) = 3" by simp
  then show ?thesis by simp
qed

text \<open>
  C4. Whenever planning succeeds, the column count is
  \<open>min maxPatches (3 \<times> ceil_cbrt maxPatches)\<close>, where \<open>maxPatches\<close> is the largest patch
  count and \<open>ceil_cbrt\<close> stands for \<^verbatim>\<open>int(ceil(pow(maxPatches, 1/3.0)))\<close>. Where that
  computation returns the ceiling of the real cube root, the column count is
  \<open>min maxPatches (3 \<times> \<lceil>root 3 maxPatches\<rceil>)\<close>; in particular 1 patch gives 3 wrap columns
  and 1 column, 8 patches give 6 columns, and 27 patches give 9 wrap columns and 9 columns.
\<close>

theorem columns_from_cube_root:
  assumes "planLayout e bp = Inr L"
  shows "maxPatches L = Max (set (map (\<lambda>(t, ps). int (length ps)) bp)) \<and>
         wrapColumns L = 3 * ceil_cbrt e (maxPatches L) \<and>
         columns L = min (maxPatches L) (3 * ceil_cbrt e (maxPatches L)) \<and>
         (ceil_cbrt e (maxPatches L) = \<lceil>root 3 (real_of_int (maxPatches L))\<rceil> \<longrightarrow>
            columns L = min (maxPatches L) (3 * \<lceil>root 3 (real_of_int (maxPatches L))\<rceil>) \<and>
            (maxPatches L = 1 \<longrightarrow> wrapColumns L = 3 \<and> columns L = 1) \<and>
            (maxPatches L = 8 \<longrightarrow> wrapColumns L = 6 \<and> columns L = 6) \<and>
            (maxPatches L = 27 \<longrightarrow> wrapColumns L = 9 \<and> columns L = 9))"
proof -
  note p = planLayout_columns [OF assms]
  have c: "columns L = min (maxPatches L) (3 * ceil_cbrt e (maxPatches L))"
    using p(2,3) by simp
  have i: "columns L = min (maxPatches L) (3 * \<lceil>root 3 (real_of_int (maxPatches L))\<rceil>) \<and>
            (maxPatches L = 1 \<longrightarrow> wrapColumns L = 3 \<and> columns L = 1) \<and>
            (maxPatches L = 8 \<longrightarrow> wrapColumns L = 6 \<and> columns L = 6) \<and>
            (maxPatches L = 27 \<longrightarrow> wrapColumns L = 9 \<and> columns L = 9)"
    if h: "ceil_cbrt e (maxPatches L) = \<lceil>root 3 (real_of_int (maxPatches L))\<rceil>"
  proof -
    have w: "wrapColumns L = 3 * \<lceil>root 3 (real_of_int (maxPatches L))\<rceil>"
      using p(2) h by simp
    have "wrapColumns L = 3 \<and> columns L = 1" if "maxPatches L = 1"
      using w p(3) that root3_1 by simp
    moreover have "wrapColumns L = 6 \<and> columns L = 6" if "maxPatches L = 8"
      using w p(3) that root3_8 by simp
    moreover have "wrapColumns L = 9 \<and> columns L = 9" if "maxPatches L = 27"
      using w p(3) that root3_27 by simp
    ultimately show ?thesis using w p(3) by simp
  qed
  show ?thesis using p(1,2) c i by blast
qed

lemma example_cbrt_values:
  "ceil_cbrt example_env 1 = \<lceil>root 3 (real_of_int 1)\<rceil>"
  "ceil_cbrt example_env 8 = \<lceil>root 3 (real_of_int 8)\<rceil>"
  "ceil_cbrt example_env 27 = \<lceil>root 3 (real_of_int 27)\<rceil>"
proof -
  have "example_ceil_cbrt 1 = 1" "example_ceil_cbrt 8 = 2" "example_ceil_cbrt 27 = 3"
    by code_simp+
  then show "ceil_cbrt example_env 1 = \<lceil>root 3 (real_of_int 1)\<rceil>"
    "ceil_cbrt example_env 8 = \<lceil>root 3 (real_of_int 8)\<rceil>"
    "ceil_cbrt example_env 27 = \<lceil>root 3 (real_of_int 27)\<rceil>"
    using root3_1 root3_8 root3_27 by (simp_all add: example_env_def)
qed

theorem columns_from_cube_root_witness:
  "(\<exists>L. planLayout example_env (uniform_patches 1) = Inr L \<and> maxPatches L = 1 \<and>
        ceil_cbrt example_env 1 = \<lceil>root 3 (real_of_int 1)\<rceil> \<and>
        wrapColumns L = 3 \<and> columns L = 1) \<and>
   (\<exists>L. planLayout example_env (uniform_patches 8) = Inr L \<and> maxPatches L = 8 \<and>
        ceil_cbrt example_env 8 = \<lceil>root 3 (real_of_int 8)\<rceil> \<and>
        wrapColumns L = 6 \<and> columns L = 6) \<and>
   (\<exists>L. planLayout example_env (uniform_patches 27) = Inr L \<and> maxPatches L = 27 \<and>
        ceil_cbrt example_env 27 = \<lceil>root 3 (real_of_int 27)\<rceil> \<and>
        wrapColumns L = 9 \<and> columns L = 9)"
proof -
  define L1 where "L1 = projr (planLayout example_env (uniform_patches 1))"
  define L8 where "L8 = projr (planLayout example_env (uniform_patches 8))"
  define L27 where "L27 = projr (planLayout example_env (uniform_patches 27))"
  have p1: "planLayout example_env (uniform_patches 1) = Inr L1"
    unfolding L1_def by code_simp
  have p8: "planLayout example_env (uniform_patches 8) = Inr L8"
    unfolding L8_def by code_simp
  have p27: "planLayout example_env (uniform_patches 27) = Inr L27"
    unfolding L27_def by code_simp
  note t1 = columns_from_cube_root [OF p1]
  note t8 = columns_from_cube_root [OF p8]
  note t27 = columns_from_cube_root [OF p27]
  have m1: "maxPatches L1 = 1" using t1 by (simp add: uniform_patches_def)
  have m8: "maxPatches L8 = 8" using t8 by (simp add: uniform_patches_def)
  have m27: "maxPatches L27 = 27" using t27 by (simp add: uniform_patches_def)
  have c1: "wrapColumns L1 = 3 \<and> columns L1 = 1"
    using t1 m1 example_cbrt_values(1) by simp
  have c8: "wrapColumns L8 = 6 \<and> columns L8 = 6"
    using t8 m8 example_cbrt_values(2) by simp
  have c27: "wrapColumns L27 = 9 \<and> columns L27 = 9"
    using t27 m27 example_cbrt_values(3) by simp
  show ?thesis
    using p1 m1 c1 p8 m8 c8 p27 m27 c27 example_cbrt_values by blast
qed

subsection \<open>The renderer: the order of the rows\<close>

lemma labels_draw_lines:
  "row_labels_from False (draw_lines e L c rgb lineGap textY lines @ rest) =
   row_labels_from False rest"
  by (induction lines arbitrary: textY) (auto split: prod.splits)

lemma labels_draw_patch:
  assumes "draw_patch e L row c p = Inr ops"
  shows "row_labels_from after_label (ops @ rest) = row_labels_from False rest"
  using assms
  by (auto simp: draw_patch_def Let_def split: sum.splits prod.splits)

lemma labels_draw_cols:
  assumes "draw_cols e L patches row r cs = Inr ops"
  shows "row_labels_from False (ops @ rest) = row_labels_from False rest"
  using assms
proof (induction cs arbitrary: ops)
  case Nil
  then show ?case by simp
next
  case (Cons c cs)
  show ?case
  proof (cases "r * columns L + c \<ge> int (length patches)")
    case True
    with Cons.prems show ?thesis by (simp add: Let_def)
  next
    case False
    with Cons.prems obtain ops1 ops2 where
      p: "draw_patch e L row c (patches ! nat (r * columns L + c)) = Inr ops1"
      and cs: "draw_cols e L patches row r cs = Inr ops2" and ops: "ops = ops1 @ ops2"
      by (auto simp: Let_def split: sum.splits)
    show ?thesis
      using labels_draw_patch [OF p, of False "ops2 @ rest"] Cons.IH [OF cs]
      by (simp add: ops)
  qed
qed

lemma labels_draw_row:
  assumes "draw_row e L t patches row r = Inr ops"
  shows "row_labels_from False (ops @ rest) = t # row_labels_from False rest"
proof (cases "draw_cols e L patches row r (range (columns L))")
  case (Inl err)
  with assms show ?thesis by (simp add: draw_row_def Let_def)
next
  case (Inr ops1)
  with assms show ?thesis
    using labels_draw_cols [OF Inr, of rest] by (auto simp: draw_row_def Let_def)
qed

lemma labels_draw_rows:
  assumes "draw_rows e L t patches row rs = Inr (ops, row')"
  shows "row_labels_from False (ops @ rest) = replicate (length rs) t @ row_labels_from False rest"
  using assms
proof (induction rs arbitrary: row ops)
  case Nil
  then show ?case by simp
next
  case (Cons r rs)
  from Cons.prems obtain ops1 ops2 where
    one: "draw_row e L t patches row r = Inr ops1"
    and more: "draw_rows e L t patches (row + 1) rs = Inr (ops2, row')"
    and ops: "ops = ops1 @ ops2"
    by (auto split: sum.splits prod.splits)
  show ?case
    using labels_draw_row [OF one, of "ops2 @ rest"] Cons.IH [OF more]
    by (simp add: ops)
qed

lemma labels_draw_types:
  assumes "draw_types e L bp row ts = Inr ops"
  shows "row_labels_from False ops = concat (map (type_row_labels L) ts)"
  using assms
proof (induction ts arbitrary: row ops)
  case Nil
  then show ?case by simp
next
  case (Cons t ts)
  from Cons.prems obtain n ops1 row' ops2 where
    n: "map_of (biomeTypeRows L) t = Some n"
    and one: "draw_rows e L t (defaultdict_get [] bp t) row (range n) = Inr (ops1, row')"
    and more: "draw_types e L bp row' ts = Inr ops2"
    and ops: "ops = ops1 @ ops2"
    by (auto simp: Let_def split: option.splits sum.splits prod.splits)
  show ?case
    using labels_draw_rows [OF one, of ops2] Cons.IH [OF more] n
    by (simp add: ops type_row_labels_def range_def)
qed

lemma sorted_type_row_labels:
  assumes "sorted ts"
  shows "sorted (concat (map (type_row_labels L) ts))"
  using assms
proof (induction ts)
  case Nil
  then show ?case by simp
next
  case (Cons t ts)
  have own: "set (type_row_labels L u) \<subseteq> {u}" for u
    by (auto simp: type_row_labels_def split: option.splits)
  have s: "sorted (type_row_labels L t)"
    by (simp add: type_row_labels_def sorted_replicate split: option.splits)
  have "t \<le> b" if "b \<in> set (concat (map (type_row_labels L) ts))" for b
  proof -
    from that obtain u where "u \<in> set ts" "b \<in> set (type_row_labels L u)" by auto
    then have "b = u" "u \<in> set ts" using own [of u] by auto
    then show ?thesis using Cons.prems by auto
  qed
  moreover have "a = t" if "a \<in> set (type_row_labels L t)" for a using that own [of t] by auto
  ultimately show ?case using Cons s by (auto simp: sorted_append)
qed

lemma render_labels:
  assumes "render e L bp = Inr img"
  shows "row_labels (img_drawn img) = concat (map (type_row_labels L) (sort (keys bp)))"
    and "sorted (row_labels (img_drawn img))"
proof -
  from assms obtain ops where d: "draw_types e L bp 0 (sorted_keys bp) = Inr ops"
    and i: "img_drawn img = ops"
    by (auto simp: render_def split: sum.splits)
  show a: "row_labels (img_drawn img) = concat (map (type_row_labels L) (sort (keys bp)))"
    using labels_draw_types [OF d] by (simp add: i row_labels_def sorted_keys_def)
  show "sorted (row_labels (img_drawn img))"
    unfolding a by (rule sorted_type_row_labels) simp
qed

text \<open>
  C5. For every grouping the loader returns, when extraction succeeds: the biome types are
  taken in lexicographic order (the keys of \<^verbatim>\<open>biomePatches\<close>, in the order of their
  creation, are the sorted types that have a patch); the patch list of each type is the
  concatenation, over its biome names in lexicographic order, of the biome's normalised
  colour codes in the order of the source list; every grouped biome has a colour list; and
  the renderer draws the rows type by type in lexicographic order of the types.
\<close>

theorem patches_grouped_and_ordered:
  assumes "load_files [] files = (out, Inr g)" and "extractPatches g = Inr bp"
  shows "dict_ok g \<and>
         keys bp = filter (\<lambda>t. type_patch_list (defaultdict_get [] g t) \<noteq> []) (sort (keys g)) \<and>
         sorted (keys bp) \<and> distinct (keys bp) \<and>
         (\<forall>t. map_of bp t =
            (if t \<in> set (keys g) \<and> type_patch_list (defaultdict_get [] g t) \<noteq> []
             then Some (type_patch_list (defaultdict_get [] g t)) else None)) \<and>
         (\<forall>t \<in> set (keys g). \<forall>name \<in> set (keys (defaultdict_get [] g t)).
            \<exists>b cs. map_of (defaultdict_get [] g t) name = Some b \<and> biomeColors b = Some cs) \<and>
         (\<forall>e L img. render e L bp = Inr img \<longrightarrow>
            row_labels (img_drawn img) = concat (map (type_row_labels L) (sort (keys bp))) \<and>
            sorted (row_labels (img_drawn img)))"
proof -
  have ok: "dict_ok g" by (rule loaded_ok [OF assms(1)])
  then have dg: "distinct (keys g)" by (simp add: dict_ok_def)
  have k: "keys bp = filter (\<lambda>t. type_patch_list (defaultdict_get [] g t) \<noteq> []) (sort (keys g))"
    by (rule extractPatches_get_keys(2) [OF dg assms(2)])
  have s: "sorted (keys bp)" unfolding k by (rule sorted_wrt_filter) simp
  have d: "distinct (keys bp)" by (rule extractPatches_distinct [OF dg assms(2)])
  have m: "\<forall>t. map_of bp t =
            (if t \<in> set (keys g) \<and> type_patch_list (defaultdict_get [] g t) \<noteq> []
             then Some (type_patch_list (defaultdict_get [] g t)) else None)"
    using extractPatches_lookup [OF dg assms(2)] by blast
  have c: "\<forall>t \<in> set (keys g). \<forall>name \<in> set (keys (defaultdict_get [] g t)).
            \<exists>b cs. map_of (defaultdict_get [] g t) name = Some b \<and> biomeColors b = Some cs"
    using extractPatches_colors [OF assms(2)] by blast
  have r: "\<forall>e L img. render e L bp = Inr img \<longrightarrow>
            row_labels (img_drawn img) = concat (map (type_row_labels L) (sort (keys bp))) \<and>
            sorted (row_labels (img_drawn img))"
    using render_labels by blast
  show ?thesis using ok k s d m c r by blast
qed

theorem patches_grouped_and_ordered_witness:
  "load_files [] example_files =
     (''JSON error: w/settings/biomes/a/bad.json: line 3, column 14: Expecting value''
        @ [newline], Inr example_grouping) \<and>
   extractPatches example_grouping = Inr example_patches \<and>
   keys example_patches = [''Desert'', ''Forest''] \<and>
   map_of example_patches ''Forest'' =
     Some (type_patch_list (defaultdict_get [] example_grouping ''Forest'')) \<and>
   type_patch_list (defaultdict_get [] example_grouping ''Forest'') =
     [\<lparr>biomeName = ''birch'', biomeColor = ''#00ee00''\<rparr>,
      \<lparr>biomeName = ''oak'', biomeColor = ''#00ff00''\<rparr>] \<and>
   (\<exists>img. render example_env example_layout example_patches = Inr img \<and>
      row_labels (img_drawn img) = [''Desert'', ''Forest''])"
proof -
  note t = patches_grouped_and_ordered [OF example_loaded example_extracted]
  have kg: "''Forest'' \<in> set (keys example_grouping)" by (simp add: example_grouping_def keys_def)
  have tp: "type_patch_list (defaultdict_get [] example_grouping ''Forest'') =
     [\<lparr>biomeName = ''birch'', biomeColor = ''#00ee00''\<rparr>,
      \<lparr>biomeName = ''oak'', biomeColor = ''#00ff00''\<rparr>]"
    by code_simp
  have k: "keys example_patches = [''Desert'', ''Forest'']" by (simp add: example_patches_def keys_def)
  from t kg tp have m: "map_of example_patches ''Forest'' =
     Some (type_patch_list (defaultdict_get [] example_grouping ''Forest''))"
    by simp
  define img where "img = projr (render example_env example_layout example_patches)"
  have r: "render example_env example_layout example_patches = Inr img"
    unfolding img_def by code_simp
  have "concat (map (type_row_labels example_layout) (sort (keys example_patches))) =
      [''Desert'', ''Forest'']"
    by code_simp
  with t r have "row_labels (img_drawn img) = [''Desert'', ''Forest'']" by metis
  with r have "\<exists>img. render example_env example_layout example_patches = Inr img \<and>
      row_labels (img_drawn img) = [''Desert'', ''Forest'']" by blast
  then show ?thesis using example_loaded example_extracted k m tp by blast
qed

end
